theory Spec2Isabelle
  imports Complex_Main "HOL-Library.AList" "HOL-Library.Sublist"
begin

chapter \<open>Definitions: the embedded program\<close>

section \<open>Values shared by the embedded functions\<close>

text \<open>
  A keyframe array is the two-column numpy array the plugin works on: one row per
  keyframe, column 0 the frame and column 1 the value. The same shape describes what the
  plugin reads from an f-curve of the host (its keyframe points as frame and value) and what
  it stores in an exported file. Floating-point numbers are modelled as real numbers; a
  result that numpy would report as inf or nan (a division by zero inside an array
  operation) is outside this model and is an error value of its own.
\<close>

type_synonym kf_array = "(real \<times> real) list"

datatype py_error =
    UnboundLocalError
  | ZeroDivisionError
  | TypeError
  | IndexError
  | KeyError
  | ValueError
  | AttributeError
  | RuntimeError
  | NonFinite

text \<open>A loop whose body may raise: the first error ends it.\<close>

fun fold_err :: "('a \<Rightarrow> 's \<Rightarrow> py_error + 's) \<Rightarrow> 'a list \<Rightarrow> 's \<Rightarrow> py_error + 's" where
  "fold_err f [] s = Inr s"
| "fold_err f (x # xs) s = (case f x s of Inl e \<Rightarrow> Inl e | Inr s' \<Rightarrow> fold_err f xs s')"

subsection \<open>Strings\<close>

text \<open>Python's \<open>x in s\<close> on strings: \<open>x\<close> occurs in \<open>s\<close> as a contiguous piece.\<close>

fun str_in :: "string \<Rightarrow> string \<Rightarrow> bool" where
  "str_in x [] = (x = [])"
| "str_in x (c # cs) = (prefix x (c # cs) \<or> str_in x cs)"

text \<open>Python's \<open>str(i)\<close> for an integer, as \<open>format\<close> renders it.\<close>

definition digit_char :: "nat \<Rightarrow> char" where
  "digit_char d = ''0123456789'' ! d"

fun str_nat :: "nat \<Rightarrow> string" where
  "str_nat n = (if n < 10 then [digit_char n] else str_nat (n div 10) @ [digit_char (n mod 10)])"

declare str_nat.simps [simp del]

definition str_int :: "int \<Rightarrow> string" where
  "str_int i = (if i < 0 then CHR ''-'' # str_nat (nat (- i)) else str_nat (nat i))"

text \<open>
  Python's \<open>s.replace(old, new)\<close>: the occurrences of \<open>old\<close> are replaced from the
  left, without overlap; an empty \<open>old\<close> matches before every character and at the end.
\<close>

fun py_replace :: "string \<Rightarrow> string \<Rightarrow> string \<Rightarrow> string" where
  "py_replace old new [] = (if old = [] then new else [])"
| "py_replace old new (c # cs) =
     (if old = [] then new @ c # py_replace old new cs
      else if prefix old (c # cs) then new @ py_replace old new (drop (length old - 1) cs)
      else c # py_replace old new cs)"

text \<open>\<open>s.endswith(x)\<close> and \<open>s.startswith(x)\<close>.\<close>

definition endswith :: "string \<Rightarrow> string \<Rightarrow> bool" where
  "endswith s x = suffix x s"

definition startswith :: "string \<Rightarrow> string \<Rightarrow> bool" where
  "startswith s x = prefix x s"

section \<open>control\_rig\_bake\_utils.py\<close>

subsection \<open>scale\_to\_new\_range\<close>




subsection \<open>A store of arrays\<close>

text \<open>
  The motion data dictionary holds references to numpy arrays, several entries may hold the
  same array, and the arrays are updated in place. The store is the list of all arrays
  created so far; a reference is a position in it. Python has no dangling reference, so
  every reference a state holds is below the length of the store.
\<close>

type_synonym addr = nat
type_synonym store = "kf_array list"



text \<open>
  \<open>a[:, 1] += b[:, 1]\<close>: element-wise when both have the same number of rows; a single
  row of \<open>b\<close> is broadcast over \<open>a\<close>; any other shape raises \<open>ValueError\<close>.
\<close>

definition iadd_col1 :: "kf_array \<Rightarrow> kf_array \<Rightarrow> py_error + kf_array" where
  "iadd_col1 a b =
     (if length b = length a then Inr (map (\<lambda>(r, s). (fst r, snd r + snd s)) (zip a b))
      else if length b = 1 then Inr (map (\<lambda>r. (fst r, snd r + snd (hd b))) a)
      else Inl ValueError)"


subsection \<open>populate\_motion\_data\_dict\<close>

record motion_data =
  md_data_path :: string
  md_array_index :: int
  md_kf_data :: addr

text \<open>The dictionary keeps the order in which its keys were first stored.\<close>

type_synonym bone_motion_data = "(string \<times> motion_data) list"

text \<open>The \<open>array_index\<close> argument is one index or an iterable of indices.\<close>

datatype index_arg = Index int | Indices "int list"

definition fcurve_identifier :: "string \<Rightarrow> int \<Rightarrow> string" where
  "fcurve_identifier dp i = dp @ ''_'' @ str_int i"

text \<open>
  The body of the loop over the indices. An entry of the dictionary is a dictionary with
  three keys, so \<open>motion_data\<close> is true as soon as the entry exists. The
  \<open>ValueError\<close> of the in-place addition is caught and only printed.
\<close>

definition populate_entry ::
  "string \<Rightarrow> addr \<Rightarrow> int \<Rightarrow> store \<times> bone_motion_data \<Rightarrow> store \<times> bone_motion_data" where
  "populate_entry dp new_kf_data i hb =
     (let h = fst hb; bone_motion_data = snd hb;
          fcurve_identifier' = fcurve_identifier dp i;
          new_entry = \<lparr>md_data_path = dp, md_array_index = i, md_kf_data = new_kf_data\<rparr>
      in case map_of bone_motion_data fcurve_identifier' of
           Some motion_data \<Rightarrow>
             if \<not> str_in ''scale'' dp then
               (case iadd_col1 (h ! md_kf_data motion_data) (h ! new_kf_data) of
                  Inr summed \<Rightarrow> (h[md_kf_data motion_data := summed], bone_motion_data)
                | Inl e \<Rightarrow> (h, bone_motion_data))
             else (h, AList.update fcurve_identifier' new_entry bone_motion_data)
         | None \<Rightarrow> (h, AList.update fcurve_identifier' new_entry bone_motion_data))"

definition populate_motion_data_dict ::
  "string \<Rightarrow> index_arg \<Rightarrow> addr \<Rightarrow> bool \<Rightarrow> store \<Rightarrow> bone_motion_data \<Rightarrow> store \<times> bone_motion_data" where
  "populate_motion_data_dict dp array_index new_kf_data is_scale h bone_motion_data =
     (let array_index' =
            (if is_scale then [0, 1, 2]
             else case array_index of Index i \<Rightarrow> [i] | Indices js \<Rightarrow> js)
      in fold (populate_entry dp new_kf_data) array_index' (h, bone_motion_data))"

subsection \<open>bake\_shape\_keys\_to\_ctrl\_rig\<close>













subsection \<open>bake\_ctrl\_rig\_animation\_to\_shape\_keys\<close>


definition setdefault_append :: "string \<Rightarrow> real \<times> real \<Rightarrow> (string \<times> kf_array) list \<Rightarrow> (string \<times> kf_array) list" where
  "setdefault_append dp row d =
     AList.update dp ((case map_of d dp of None \<Rightarrow> [] | Some rows \<Rightarrow> rows) @ [row]) d"








subsection \<open>An invariant of the collected motion data\<close>


section \<open>anim\_utils.py\<close>

text \<open>
  The host's animation data as far as these functions read it. An action has the f-curves
  of the legacy interface and, from Blender 4.4 on, one channel bag of f-curves per slot
  that has one; \<open>action_get_channelbag_for_slot\<close> of the host returns the channel bag of
  a slot, or nothing when the slot is missing or has no channel bag. The f-curves
  themselves are opaque here.
\<close>

type_synonym slot = nat

record 'fc action =
  legacy_fcurves :: "'fc list"
  channelbags :: "(slot \<times> 'fc list) list"

record 'fc anim_data =
  adt_action :: "'fc action option"
  adt_action_slot :: "slot option"

record 'fc blender_id =
  animation_data :: "'fc anim_data option"

text \<open>\<open>bpy.app.version >= (4, 4, 0)\<close>: tuples compare lexicographically.\<close>

fun version_ge_4_4_0 :: "nat \<times> nat \<times> nat \<Rightarrow> bool" where
  "version_ge_4_4_0 (major, minor, patch) = (major > 4 \<or> (major = 4 \<and> minor \<ge> 4))"

definition action_get_channelbag_for_slot :: "'fc action \<Rightarrow> slot option \<Rightarrow> 'fc list option" where
  "action_get_channelbag_for_slot action slot' =
     (case slot' of None \<Rightarrow> None | Some s \<Rightarrow> map_of (channelbags action) s)"

text \<open>
  The local variable \<open>fcurves\<close> is assigned on some paths only; returning it on another
  path raises \<open>UnboundLocalError\<close>.
\<close>

definition get_active_animation_fcurves_from_id ::
  "nat \<times> nat \<times> nat \<Rightarrow> 'fc blender_id option \<Rightarrow> py_error + 'fc list" where
  "get_active_animation_fcurves_from_id version id' =
     (case id' of
        None \<Rightarrow> Inr []
      | Some i \<Rightarrow>
          (case animation_data i of
             None \<Rightarrow> Inr []
           | Some adt \<Rightarrow>
               (case adt_action adt of
                  None \<Rightarrow> Inr []
                | Some action \<Rightarrow>
                    if version_ge_4_4_0 version then
                      (case adt_action_slot adt of
                         None \<Rightarrow> Inl UnboundLocalError
                       | Some s \<Rightarrow>
                           (case action_get_channelbag_for_slot action (Some s) of
                              Some fcurves \<Rightarrow> Inr fcurves
                            | None \<Rightarrow> Inl UnboundLocalError))
                    else Inr (legacy_fcurves action))))"

text \<open>
  \<open>_ensure_channelbag_exists\<close> belongs to the host: it is an argument, giving the
  f-curves of the channel bag it creates.
\<close>

definition get_fcurves_from_slot ::
  "nat \<times> nat \<times> nat \<Rightarrow> ('fc action \<Rightarrow> slot option \<Rightarrow> py_error + 'fc list) \<Rightarrow> 'fc action
     \<Rightarrow> slot option \<Rightarrow> bool \<Rightarrow> py_error + 'fc list" where
  "get_fcurves_from_slot version ensure_channelbag_exists action slot' ensure =
     (if version_ge_4_4_0 version then
        (case action_get_channelbag_for_slot action slot' of
           Some fcurves \<Rightarrow> Inr fcurves
         | None \<Rightarrow>
             if ensure then ensure_channelbag_exists action slot'
             else Inl UnboundLocalError)
      else Inr (legacy_fcurves action))"

section \<open>animate\_operators.py: sides and mirror names\<close>

text \<open>The dictionaries keep their order: \<open>get_mirror_name\<close> returns at the first hit.\<close>

definition mirror_sides_dict_L :: "(string \<times> string) list" where
  "mirror_sides_dict_L = [(''left'', ''right''), (''Left'', ''Right''), (''LEFT'', ''RIGHT'')]"

definition mirror_sides_end_L :: "(string \<times> string) list" where
  "mirror_sides_end_L = [(''L'', ''R''), (''_l'', ''_r'')]"

definition mirror_sides_dict_R :: "(string \<times> string) list" where
  "mirror_sides_dict_R = [(''right'', ''left''), (''Right'', ''Left''), (''RIGHT'', ''LEFT'')]"

definition mirror_sides_end_R :: "(string \<times> string) list" where
  "mirror_sides_end_R = [(''R'', ''L''), (''_r'', ''_l'')]"

definition get_side :: "string \<Rightarrow> string" where
  "get_side expression_name =
     (if list_ex (\<lambda>x. str_in x expression_name) (map fst mirror_sides_dict_L)
         \<or> list_ex (\<lambda>x. endswith expression_name x) (map fst mirror_sides_end_L)
      then ''L''
      else if list_ex (\<lambda>x. str_in x expression_name) (map fst mirror_sides_dict_R)
              \<or> list_ex (\<lambda>x. endswith expression_name x) (map fst mirror_sides_end_R)
      then ''R''
      else ''N'')"


text \<open>
  The two loops of one side: the first key found in the name, then the first key the name
  ends with; the hit is replaced everywhere in the name.
\<close>

definition mirror_with ::
  "(string \<times> string) list \<Rightarrow> (string \<times> string) list \<Rightarrow> string \<Rightarrow> string option" where
  "mirror_with dict ends expression_name =
     (case find (\<lambda>kv. str_in (fst kv) expression_name) dict of
        Some kv \<Rightarrow> Some (py_replace (fst kv) (snd kv) expression_name)
      | None \<Rightarrow>
          (case find (\<lambda>kv. endswith expression_name (fst kv)) ends of
             Some kv \<Rightarrow> Some (py_replace (fst kv) (snd kv) expression_name)
           | None \<Rightarrow> None))"

definition get_mirror_name :: "string \<Rightarrow> string \<Rightarrow> string" where
  "get_mirror_name side expression_name =
     (case (if side = ''L'' then mirror_with mirror_sides_dict_L mirror_sides_end_L expression_name
            else None) of
        Some m \<Rightarrow> m
      | None \<Rightarrow>
          (case (if side = ''R''
                 then mirror_with mirror_sides_dict_R mirror_sides_end_R expression_name
                 else None) of
             Some m \<Rightarrow> m
           | None \<Rightarrow> []))"

text \<open>The opposite of a side.\<close>

definition opposite_side :: "string \<Rightarrow> string" where
  "opposite_side side = (if side = ''L'' then ''R'' else if side = ''R'' then ''L'' else side)"

subsection \<open>Names with a single side word\<close>

definition side_words :: "string list" where
  "side_words = [''left'', ''Left'', ''LEFT'', ''right'', ''Right'', ''RIGHT'']"

definition end_markers :: "string list" where
  "end_markers = [''L'', ''_l'', ''R'', ''_r'']"

text \<open>
  The name contains exactly one of the six side words (any number of times) and ends with
  none of the four end markers.
\<close>

definition single_word_name :: "string \<Rightarrow> bool" where
  "single_word_name n =
     (length (filter (\<lambda>w. str_in w n) side_words) = 1 \<and> \<not> list_ex (endswith n) end_markers)"

text \<open>
  Two strings cannot overlap: no non-empty end of one is a beginning of the other or begins
  with the other.
\<close>

definition overlap_free :: "string \<Rightarrow> string \<Rightarrow> bool" where
  "overlap_free x v =
     (list_all (\<lambda>u. u = [] \<or> (\<not> prefix u v \<and> \<not> prefix v u)) (suffixes x)
      \<and> list_all (\<lambda>w. w = [] \<or> (\<not> prefix w x \<and> \<not> prefix x w)) (suffixes v))"

subsection \<open>Names with an end marker only\<close>

text \<open>
  The end marker that decides the side of a name without side word, with its replacement: the
  first of \<open>L\<close>, \<open>_l\<close>, \<open>R\<close>, \<open>_r\<close> that the name ends with.
\<close>

definition end_marker_of :: "string \<Rightarrow> (string \<times> string) option" where
  "end_marker_of n = find (\<lambda>kv. endswith n (fst kv)) (mirror_sides_end_L @ mirror_sides_end_R)"

text \<open>
  The name contains none of the six side words and ends with an end marker; it does not contain
  the replacement of that marker, and replacing the marker creates no side word (as
  \<open>LIGHTL\<close> would, which becomes \<open>RIGHTR\<close>).
\<close>

definition marker_name :: "string \<Rightarrow> bool" where
  "marker_name n =
     (\<not> list_ex (\<lambda>w. str_in w n) side_words
      \<and> (case end_marker_of n of
            None \<Rightarrow> False
          | Some kv \<Rightarrow>
              \<not> str_in (snd kv) n
              \<and> \<not> list_ex (\<lambda>w. str_in w (py_replace (fst kv) (snd kv) n)) side_words))"
section \<open>animate\_operators.py: scaling an imported action to the rig\<close>

text \<open>
  The part of \<open>FACEIT_OT_AppendActionToFaceitRig.execute\<close> that computes the action
  scale. A pose bone of the rig is its name with the translation of its rest matrix; the
  imported rest pose maps a bone name to the three coordinates the exporter stored. The
  bone list \<open>FACEIT_CTRL_BONES\<close> comes from a module that is not part of the embedded
  sources and is an argument. The functions that rescale the keyframes belong to
  \<open>animate_utils\<close>; the model returns which of them is called and with which scale.
\<close>

type_synonym vec3 = "real \<times> real \<times> real"

fun vec3_nth :: "vec3 \<Rightarrow> nat \<Rightarrow> real" where
  "vec3_nth (x, y, z) i = (if i = 0 then x else if i = 1 then y else z)"

definition py_max :: "real list \<Rightarrow> py_error + real" where
  "py_max xs = (case xs of [] \<Rightarrow> Inl ValueError | x # r \<Rightarrow> Inr (fold max r x))"

definition py_min :: "real list \<Rightarrow> py_error + real" where
  "py_min xs = (case xs of [] \<Rightarrow> Inl ValueError | x # r \<Rightarrow> Inr (fold min r x))"

definition bind_err :: "py_error + 'a \<Rightarrow> ('a \<Rightarrow> py_error + 'b) \<Rightarrow> py_error + 'b" where
  "bind_err m f = (case m of Inl e \<Rightarrow> Inl e | Inr x \<Rightarrow> f x)"

fun map_err :: "('a \<Rightarrow> py_error + 'b) \<Rightarrow> 'a list \<Rightarrow> py_error + 'b list" where
  "map_err f [] = Inr []"
| "map_err f (x # xs) =
     (case f x of Inl e \<Rightarrow> Inl e
      | Inr y \<Rightarrow> (case map_err f xs of Inl e \<Rightarrow> Inl e | Inr ys \<Rightarrow> Inr (y # ys)))"

text \<open>The extent of a list of coordinates: \<open>max(values) - min(values)\<close>.\<close>

definition extent :: "real list \<Rightarrow> py_error + real" where
  "extent values = bind_err (py_max values) (\<lambda>hi. bind_err (py_min values) (\<lambda>lo. Inr (hi - lo)))"

definition dimensions_of :: "vec3 list \<Rightarrow> py_error + real list" where
  "dimensions_of ps = map_err (\<lambda>i. extent (map (\<lambda>p. vec3_nth p i) ps)) [0, 1, 2]"

definition get_import_rig_dimensions ::
  "(string \<times> vec3) list \<Rightarrow> (string \<times> vec3) list \<Rightarrow> py_error + real list" where
  "get_import_rig_dimensions rest_pose pose_bones =
     bind_err
       (map_err (\<lambda>pb. case map_of rest_pose (fst pb) of None \<Rightarrow> Inl TypeError | Some values \<Rightarrow> Inr values)
          pose_bones)
       dimensions_of"

definition get_rig_dimensions :: "(string \<times> vec3) list \<Rightarrow> py_error + real list" where
  "get_rig_dimensions pose_bones = dimensions_of (map snd pose_bones)"

text \<open>\<open>list.index(0)\<close> on a list that holds a zero.\<close>

fun index_of_zero :: "real list \<Rightarrow> nat" where
  "index_of_zero [] = 0"
| "index_of_zero (x # xs) = (if x = 0 then 0 else Suc (index_of_zero xs))"

text \<open>
  Only the first zero dimension is replaced. The divisions are divisions of Python floats
  and raise on a zero divisor.
\<close>

definition fill_zero_dimension :: "real list \<Rightarrow> py_error + real list" where
  "fill_zero_dimension import_rig_dimensions =
     (let zero_dims = count_list import_rig_dimensions 0
      in if zero_dims \<noteq> 0 then
           (if 3 - int zero_dims = 0 then Inl ZeroDivisionError
            else Inr (import_rig_dimensions
                       [index_of_zero import_rig_dimensions :=
                          sum_list import_rig_dimensions / of_int (3 - int zero_dims)]))
         else Inr import_rig_dimensions)"

definition py_div :: "real \<Rightarrow> real \<Rightarrow> py_error + real" where
  "py_div a b = (if b = 0 then Inl ZeroDivisionError else Inr (a / b))"

definition auto_action_scale :: "real list \<Rightarrow> real list \<Rightarrow> py_error + real list" where
  "auto_action_scale rig_dim import_rig_dimensions =
     map_err (\<lambda>i. py_div (rig_dim ! i) (import_rig_dimensions ! i)) [0, 1, 2]"

datatype scale_call =
    Scale_poses_to_new_dimensions_slow "string list" "real list"
  | Scale_action_to_rig "real list" "string list"

definition skip_lid_bones :: "string list" where
  "skip_lid_bones =
     [''lid.T.L.003'', ''lid.T.L.002'', ''lid.T.L.001'', ''lid.B.L.001'', ''lid.B.L.002'',
      ''lid.B.L.003'', ''lid.B.L'', ''lid.T.L'', ''lid.T.R.003'', ''lid.T.R.002'',
      ''lid.T.R.001'', ''lid.B.R.001'', ''lid.B.R.002'', ''lid.B.R.003'', ''lid.B.R'',
      ''lid.T.R'']"

definition skip_double_constraint :: "string list" where
  "skip_double_constraint = [''nose.005'', ''chin.002'', ''nose.003'']"

record scale_input =
  rig_type :: string
  FACEIT_CTRL_BONES :: "string list"
  rig_pose_bones :: "(string \<times> vec3) list"
  rest_pose :: "(string \<times> vec3) list"
  scale_eyes :: bool
  scale_method :: string
  auto_scale_method :: string
  new_action_scale :: "real list"

text \<open>
  The result is the action scale and the rescaling call made, if one is made. A scale
  method other than the two of the operator's enum does nothing. \<open>skip_lid_bones\<close> is
  assigned for the two Rigify rig types only, and the call of \<open>scale_action_to_rig\<close>
  reads it: on another rig type that call is an \<open>UnboundLocalError\<close>.
\<close>

definition scale_action :: "scale_input \<Rightarrow> py_error + real list \<times> scale_call option" where
  "scale_action inp =
     (let rigify = (rig_type inp = ''RIGIFY'' \<or> rig_type inp = ''RIGIFY_NEW'');
          names = map fst (rig_pose_bones inp);
          skip_scale_bones =
            (if rigify then skip_double_constraint @ (if scale_eyes inp then skip_lid_bones else [])
             else []);
          skip_dimension_check =
            (if rigify then [''eye.L'', ''eye.R'', ''eyes'', ''eye_common''] else []);
          facial_control_bones =
            (if rigify then filter (\<lambda>n. n \<in> set (FACEIT_CTRL_BONES inp)) names else names);
          bone_dimensions_check_names =
            filter (\<lambda>n. n \<in> fst ` set (rest_pose inp) \<and> n \<notin> set skip_dimension_check)
              facial_control_bones;
          scale_bones =
            filter (\<lambda>n. n \<in> set facial_control_bones \<and> n \<notin> set skip_scale_bones) names
      in if scale_method inp = ''AUTO'' then
           (let bone_dimensions_check =
                  filter (\<lambda>pb. fst pb \<in> set bone_dimensions_check_names) (rig_pose_bones inp)
            in if bone_dimensions_check = [] then Inr ([1, 1, 1], None)
               else
                 bind_err (get_import_rig_dimensions (rest_pose inp) bone_dimensions_check)
                   (\<lambda>import_rig_dimensions.
                 bind_err (fill_zero_dimension import_rig_dimensions)
                   (\<lambda>import_rig_dimensions2.
                 bind_err (get_rig_dimensions bone_dimensions_check)
                   (\<lambda>rig_dim.
                 bind_err (auto_action_scale rig_dim import_rig_dimensions2)
                   (\<lambda>action_scale.
                      if \<not> list_all (\<lambda>x. x = 1) action_scale then
                        (if auto_scale_method inp = ''GLOBAL''
                         then Inr (action_scale,
                                   Some (Scale_poses_to_new_dimensions_slow scale_bones action_scale))
                         else if rigify
                         then Inr (action_scale,
                                   Some (Scale_action_to_rig action_scale skip_lid_bones))
                         else Inl UnboundLocalError)
                      else Inr (action_scale, None))))))
         else if scale_method inp = ''OVERWRITE'' then
           (let action_scale = new_action_scale inp
            in if \<not> list_all (\<lambda>x. x = 1) action_scale
               then Inr (action_scale,
                         Some (Scale_poses_to_new_dimensions_slow scale_bones action_scale))
               else Inr (action_scale, None))
         else Inr ([1, 1, 1], None))"

section \<open>animate\_operators.py: FACEIT\_OT\_ExportExpressionsToJson.execute\<close>

text \<open>
  The loop that builds the exported action dictionary. An f-curve of the action is its data
  path, its array index and the keyframe array that \<open>kf_data_to_numpy_array\<close> reads from
  it. The dictionary maps a data path to a dictionary from array index to the list of kept
  keyframes.
\<close>

record export_fcurve =
  ex_data_path :: string
  ex_array_index :: int
  ex_kf_data :: kf_array

type_synonym action_dict = "(string \<times> (int \<times> kf_array) list) list"

text \<open>Python's \<open>x % m\<close> on floats, for a positive \<open>m\<close>.\<close>

definition py_fmod :: "real \<Rightarrow> real \<Rightarrow> real" where
  "py_fmod x m = x - m * of_int \<lfloor>x / m\<rfloor>"

definition export_skips :: "string \<Rightarrow> string \<Rightarrow> bool" where
  "export_skips rig_type' dp =
     (((rig_type' = ''RIGIFY'' \<or> rig_type' = ''RIGIFY_NEW'')
        \<and> list_ex (\<lambda>x. str_in x dp) [''DEF-'', ''MCH-'', ''ORG-''])
      \<or> str_in ''influence'' dp
      \<or> str_in ''mouth_lock'' dp)"

definition export_kept_keyframes :: "export_fcurve \<Rightarrow> kf_array" where
  "export_kept_keyframes fc =
     (let kf_data = ex_kf_data fc;
          kf_data1 = filter (\<lambda>row. \<not> (py_fmod (fst row) 10 \<noteq> 0)) kf_data
      in if str_in ''scale'' (ex_data_path fc)
            \<or> (str_in ''rotation_quaternion'' (ex_data_path fc) \<and> ex_array_index fc = 0)
         then filter (\<lambda>row. \<not> (snd row = 1)) kf_data1
         else filter (\<lambda>row. \<not> (snd row = 0)) kf_data1)"

definition export_fcurve_step :: "string \<Rightarrow> export_fcurve \<Rightarrow> action_dict \<Rightarrow> action_dict" where
  "export_fcurve_step rig_type' fc action_dict =
     (let dp = ex_data_path fc; array_index = ex_array_index fc
      in if export_skips rig_type' dp then action_dict
         else
           (let kf_anim_data = export_kept_keyframes fc
            in if kf_anim_data = [] then action_dict
               else
                 (case map_of action_dict dp of
                    Some dp_dict \<Rightarrow>
                      if dp_dict \<noteq> []
                      then AList.update dp (AList.update array_index kf_anim_data dp_dict) action_dict
                      else AList.update dp [(array_index, kf_anim_data)] action_dict
                  | None \<Rightarrow> AList.update dp [(array_index, kf_anim_data)] action_dict)))"

definition export_action :: "string \<Rightarrow> export_fcurve list \<Rightarrow> action_dict" where
  "export_action rig_type' fcurves = fold (export_fcurve_step rig_type') fcurves []"

text \<open>What the dictionary holds for a data path and an array index.\<close>

definition action_dict_lookup :: "action_dict \<Rightarrow> string \<Rightarrow> int \<Rightarrow> kf_array option" where
  "action_dict_lookup d dp i = (case map_of d dp of None \<Rightarrow> None | Some dd \<Rightarrow> map_of dd i)"

text \<open>The rest value of a channel, as the export compares with it.\<close>

definition export_rest_value :: "export_fcurve \<Rightarrow> real" where
  "export_rest_value fc =
     (if str_in ''scale'' (ex_data_path fc)
         \<or> (str_in ''rotation_quaternion'' (ex_data_path fc) \<and> ex_array_index fc = 0)
      then 1 else 0)"

section \<open>animate\_operators.py: FACEIT\_OT\_AppendActionToFaceitRig.execute\<close>

text \<open>
  The part of the operator that fills the temporary action from a loaded expression file.
  An f-curve of the temporary action has a data path, an array index, an action group and
  keyframe points; a keyframe point has its coordinates (frame, value) and an interpolation
  mode.
\<close>

record keyframe =
  co :: "real \<times> real"
  interpolation :: string

record fcurve =
  fc_data_path :: string
  fc_array_index :: nat
  fc_action_group :: string
  keyframe_points :: "keyframe list"

text \<open>
  The default of a property of a pose bone: an array of values or a single value. A pose
  bone is given by what the operator reads from it: its name, the rotation mode that
  \<open>get_rotation_mode\<close> reports for it, the defaults of its RNA properties, and the
  defaults of its custom properties (a custom property may have no default).
\<close>

datatype rna_default = Array_default "real list" | Scalar_default real

record pose_bone =
  pb_name :: string
  pb_rotation_mode :: string
  pb_properties :: "(string \<times> rna_default) list"
  pb_custom_properties :: "(string \<times> rna_default option) list"

record parsed_data_path =
  pd_bone_name :: string
  pd_prop_name :: "string option"
  pd_custom_prop_name :: "string option"

text \<open>
  The functions of \<open>animate_utils\<close>, \<open>faceit_data\<close> and \<open>fc_dr_utils\<close> that the
  loop calls, and the host's \<open>path_resolve\<close>, are arguments of the model.
  \<open>convert_rotation\<close> stands for \<open>get_value_as_rotation\<close> followed by
  \<open>convert_rotation_values\<close>; \<open>populate_keyframe_points_from_np_array\<close> is called
  with \<open>add=True\<close> and maps the keyframe points of an f-curve and the array passed to the
  keyframe points the f-curve has afterwards.
\<close>

record import_host =
  parse_pose_bone_data_path :: "string \<Rightarrow> parsed_data_path"
  get_rigify_bone_from_old_name :: "string \<Rightarrow> string"
  path_resolves :: "string \<Rightarrow> bool"
  get_data_path_from_rotation_mode :: "string \<Rightarrow> string"
  get_rotation_mode_from_data_path_val :: "string \<Rightarrow> string"
  convert_rotation :: "string \<Rightarrow> string \<Rightarrow> real list \<Rightarrow> real list"
  populate_keyframe_points_from_np_array :: "keyframe list \<Rightarrow> kf_array \<Rightarrow> keyframe list"
  pose_bones :: "pose_bone list"
  is_new_rigify_rig :: bool
  convert_animation_to_new_rigify :: bool

subsection \<open>Zero frames\<close>

text \<open>The frames of the new expressions and the zero frames between them.\<close>

definition new_frames :: "nat \<Rightarrow> int list" where
  "new_frames new_expression_count = map (\<lambda>i. (int i + 1) * 10) [0 ..< new_expression_count]"

definition zero_frames :: "nat \<Rightarrow> int list" where
  "zero_frames new_expression_count =
     sort (remdups (concat (map (\<lambda>i. [(int i + 1) * 10 + 1, (int i + 1) * 10 - 9])
                              [0 ..< new_expression_count])))"

subsection \<open>Python values\<close>

text \<open>A string or \<open>None\<close> used as a condition: true for a non-empty string.\<close>

definition truthy :: "string option \<Rightarrow> bool" where
  "truthy s = (case s of None \<Rightarrow> False | Some x \<Rightarrow> x \<noteq> [])"

text \<open>
  \<open>int(s)\<close> for a key of the loaded dictionary: an optional minus sign and decimal
  digits. (Python accepts a few more spellings, which an exported file never has; the model
  treats them as a \<open>ValueError\<close>.)
\<close>

definition digit_val :: "char \<Rightarrow> nat option" where
  "digit_val c =
     map_of [(CHR ''0'', 0), (CHR ''1'', 1), (CHR ''2'', 2), (CHR ''3'', 3), (CHR ''4'', 4),
             (CHR ''5'', 5), (CHR ''6'', 6), (CHR ''7'', 7), (CHR ''8'', 8), (CHR ''9'', 9)] c"

fun nat_of_digits :: "nat \<Rightarrow> string \<Rightarrow> nat option" where
  "nat_of_digits acc [] = Some acc"
| "nat_of_digits acc (c # cs) =
     (case digit_val c of None \<Rightarrow> None | Some d \<Rightarrow> nat_of_digits (10 * acc + d) cs)"

definition py_int :: "string \<Rightarrow> py_error + int" where
  "py_int s =
     (case s of
        [] \<Rightarrow> Inl ValueError
      | c # cs \<Rightarrow>
          if c = CHR ''-'' then
            (if cs = [] then Inl ValueError
             else case nat_of_digits 0 cs of None \<Rightarrow> Inl ValueError | Some n \<Rightarrow> Inr (- int n))
          else (case nat_of_digits 0 s of None \<Rightarrow> Inl ValueError | Some n \<Rightarrow> Inr (int n)))"

subsection \<open>Renaming bones of an old rig\<close>

definition rename_lip_end ::
  "string \<Rightarrow> pose_bone list \<Rightarrow> string \<times> string \<Rightarrow> py_error + string \<times> string" where
  "rename_lip_end marker pbs dn =
     (let dp = fst dn; bone_name = snd dn
      in if str_in marker bone_name then
           (if bone_name \<in> pb_name ` set pbs then Inr (dp, bone_name)
            else case find (\<lambda>b. startswith (pb_name b) marker) pbs of
                   None \<Rightarrow> Inl AttributeError
                 | Some bone \<Rightarrow> Inr (py_replace bone_name (pb_name bone) dp, pb_name bone))
         else Inr (dp, bone_name))"

definition rename_bone :: "import_host \<Rightarrow> string \<times> string \<Rightarrow> py_error + string \<times> string" where
  "rename_bone host dn =
     (let dn1 = (if convert_animation_to_new_rigify host then
                   (let new_name = get_rigify_bone_from_old_name host (snd dn)
                    in (py_replace (snd dn) new_name (fst dn), new_name))
                 else dn)
      in if snd dn1 \<notin> pb_name ` set (pose_bones host) \<and> is_new_rigify_rig host then
           bind_err (rename_lip_end ''lip_end.L'' (pose_bones host) dn1)
             (rename_lip_end ''lip_end.R'' (pose_bones host))
         else Inr dn1)"

subsection \<open>Defaults of a channel\<close>

text \<open>The number of channels and the default values, which may be \<open>None\<close>.\<close>

definition channel_defaults ::
  "pose_bone option \<Rightarrow> string option \<Rightarrow> string option \<Rightarrow> py_error + nat \<times> real list option" where
  "channel_defaults pose_bone' prop_name custom_prop_name =
     (if truthy prop_name then
        (case pose_bone' of
           None \<Rightarrow> Inl AttributeError
         | Some pb \<Rightarrow>
             (case map_of (pb_properties pb) (the prop_name) of
                None \<Rightarrow> Inl AttributeError
              | Some (Array_default d) \<Rightarrow> Inr (length d, Some d)
              | Some (Scalar_default d) \<Rightarrow> Inr (1, Some [d])))
      else if truthy custom_prop_name then
        (case pose_bone' of
           None \<Rightarrow> Inl AttributeError
         | Some pb \<Rightarrow>
             (case map_of (pb_custom_properties pb) (the custom_prop_name) of
                None \<Rightarrow> Inl KeyError
              | Some None \<Rightarrow> Inr (1, None)
              | Some (Some (Array_default d)) \<Rightarrow> Inr (length d, Some d)
              | Some (Some (Scalar_default d)) \<Rightarrow> Inr (1, Some [d])))
      else Inr (1, None))"

text \<open>\<open>default[i]\<close>.\<close>

definition default_at :: "real list option \<Rightarrow> nat \<Rightarrow> py_error + real" where
  "default_at default' i =
     (case default' of
        None \<Rightarrow> Inl TypeError
      | Some d \<Rightarrow> if i < length d then Inr (d ! i) else Inl IndexError)"

subsection \<open>Converting the rotation mode\<close>

text \<open>
  The loaded data of one data path maps the array index, as a string, to a list of (frame,
  value) pairs. For the conversion it is regrouped by frame.
\<close>

type_synonym data_per_array_index = "(string \<times> kf_array) list"
type_synonym frames_dict = "(real \<times> (int \<times> real) list) list"

definition frames_dict_add :: "int \<Rightarrow> real \<times> real \<Rightarrow> frames_dict \<Rightarrow> frames_dict" where
  "frames_dict_add i fv frames_dict =
     AList.update (fst fv)
       (AList.update i (snd fv) (case map_of frames_dict (fst fv) of None \<Rightarrow> [] | Some vd \<Rightarrow> vd))
       frames_dict"

definition build_frames_dict :: "data_per_array_index \<Rightarrow> py_error + frames_dict" where
  "build_frames_dict d =
     fold_err (\<lambda>entry frames_dict.
                 bind_err (py_int (fst entry))
                   (\<lambda>i. Inr (fold (frames_dict_add i) (snd entry) frames_dict)))
       d []"

text \<open>
  The rotation vector of one frame. \<open>if val:\<close> is false for a missing value and for a
  stored value of zero; both take the default of the channel.
\<close>

definition reconstruct_rotation ::
  "nat \<Rightarrow> real list option \<Rightarrow> (int \<times> real) list \<Rightarrow> py_error + real list" where
  "reconstruct_rotation channels default' value_dict =
     map_err (\<lambda>i. case map_of value_dict (int i) of
                     Some val \<Rightarrow> if val \<noteq> 0 then Inr val else default_at default' i
                   | None \<Rightarrow> default_at default' i)
       [0 ..< channels]"

definition convert_rotation_data ::
  "import_host \<Rightarrow> nat \<Rightarrow> real list option \<Rightarrow> string \<Rightarrow> string \<Rightarrow> data_per_array_index
     \<Rightarrow> py_error + data_per_array_index" where
  "convert_rotation_data host channels default' rot_mode_from rot_mode_to d =
     bind_err (build_frames_dict d)
       (\<lambda>frames_dict.
          fold_err (\<lambda>fr acc.
                      bind_err (reconstruct_rotation channels default' (snd fr))
                        (\<lambda>rot_value.
                           Inr (fold (\<lambda>iv. setdefault_append (str_nat (fst iv)) (fst fr, snd iv))
                                  (enumerate 0 (convert_rotation host rot_mode_from rot_mode_to rot_value))
                                  acc)))
            frames_dict [])"

subsection \<open>One data path of the loaded action\<close>

record channel_plan =
  cp_dp :: string
  cp_bone_name :: string
  cp_channels :: nat
  cp_default :: "real list option"
  cp_data :: data_per_array_index

datatype prepared = Skip string | Plan channel_plan

definition prepare_channels ::
  "import_host \<Rightarrow> string \<Rightarrow> data_per_array_index \<Rightarrow> py_error + prepared" where
  "prepare_channels host dp d =
     (let parsed = parse_pose_bone_data_path host dp;
          prop_name = pd_prop_name parsed;
          custom_prop_name = pd_custom_prop_name parsed
      in bind_err (rename_bone host (dp, pd_bone_name parsed))
           (\<lambda>dn.
              let dp1 = fst dn; bone_name = snd dn
              in if \<not> path_resolves host dp1 then Inr (Skip dp1)
                 else if \<not> truthy custom_prop_name \<and> \<not> truthy prop_name then Inr (Skip dp1)
                 else
                   (let pose_bone = find (\<lambda>b. pb_name b = bone_name) (pose_bones host)
                    in bind_err (channel_defaults pose_bone prop_name custom_prop_name)
                         (\<lambda>cd.
                            case prop_name of
                              None \<Rightarrow> Inl TypeError
                            | Some pn \<Rightarrow>
                                if str_in ''rotation'' pn then
                                  (case pose_bone of
                                     None \<Rightarrow> Inl AttributeError
                                   | Some pb \<Rightarrow>
                                       (let rot_mode_to = pb_rotation_mode pb;
                                            rotation_data_path_to =
                                              get_data_path_from_rotation_mode host rot_mode_to;
                                            rot_mode_from =
                                              get_rotation_mode_from_data_path_val host pn
                                        in if rotation_data_path_to \<noteq> pn then
                                             bind_err (convert_rotation_data host (fst cd) (snd cd)
                                                         rot_mode_from rot_mode_to d)
                                               (\<lambda>d2.
                                                  case map_of (pb_properties pb) rotation_data_path_to of
                                                    Some (Array_default df) \<Rightarrow>
                                                      Inr (Plan \<lparr>cp_dp = py_replace pn rotation_data_path_to dp1,
                                                                 cp_bone_name = bone_name,
                                                                 cp_channels = length df,
                                                                 cp_default = Some df,
                                                                 cp_data = d2\<rparr>)
                                                  | _ \<Rightarrow> Inl AttributeError)
                                           else Inr (Plan \<lparr>cp_dp = dp1, cp_bone_name = bone_name,
                                                           cp_channels = fst cd, cp_default = snd cd,
                                                           cp_data = d\<rparr>)))
                                else Inr (Plan \<lparr>cp_dp = dp1, cp_bone_name = bone_name,
                                                cp_channels = fst cd, cp_default = snd cd,
                                                cp_data = d\<rparr>)))))"

subsection \<open>The default of the channel that is written\<close>

text \<open>
  Stated apart from the loop, to compare the loop with: the f-curves of a loaded data path
  animate a property of a pose bone, and the default of a channel is the default of that
  property. The bone is the one the loaded path names, after the renaming for a new Rigify
  rig. The property is the one the loaded path names, except that a rotation is written in
  the rotation mode of the bone, whatever rotation the file stored.
\<close>

definition default_values :: "rna_default option \<Rightarrow> real list option" where
  "default_values d =
     (case d of
        None \<Rightarrow> None
      | Some (Array_default a) \<Rightarrow> Some a
      | Some (Scalar_default x) \<Rightarrow> Some [x])"

definition channel_property :: "import_host \<Rightarrow> pose_bone \<Rightarrow> string \<Rightarrow> string" where
  "channel_property host pb pn =
     (if str_in ''rotation'' pn then get_data_path_from_rotation_mode host (pb_rotation_mode pb)
      else pn)"

definition channel_default_values :: "import_host \<Rightarrow> string \<Rightarrow> real list option" where
  "channel_default_values host dp =
     (let parsed = parse_pose_bone_data_path host dp
      in case rename_bone host (dp, pd_bone_name parsed) of
           Inl e \<Rightarrow> None
         | Inr dn \<Rightarrow>
             (case find (\<lambda>b. pb_name b = snd dn) (pose_bones host) of
                None \<Rightarrow> None
              | Some pb \<Rightarrow>
                  if truthy (pd_prop_name parsed) then
                    default_values
                      (map_of (pb_properties pb) (channel_property host pb (the (pd_prop_name parsed))))
                  else if truthy (pd_custom_prop_name parsed) then
                    (case map_of (pb_custom_properties pb) (the (pd_custom_prop_name parsed)) of
                       None \<Rightarrow> None
                     | Some d \<Rightarrow> default_values d)
                  else None))"

subsection \<open>Populating the f-curves of a data path\<close>

text \<open>
  \<open>np.vstack\<close> of the loaded rows and the zero rows raises when there is no zero frame,
  since the empty array has one dimension only.
\<close>

fun find_index :: "('a \<Rightarrow> bool) \<Rightarrow> 'a list \<Rightarrow> nat option" where
  "find_index P [] = None"
| "find_index P (x # xs) = (if P x then Some 0 else map_option Suc (find_index P xs))"

definition find_or_new_fcurve :: "string \<Rightarrow> nat \<Rightarrow> string \<Rightarrow> fcurve list \<Rightarrow> fcurve list \<times> nat" where
  "find_or_new_fcurve dp i bone_name fcurves =
     (case find_index (\<lambda>fc. fc_data_path fc = dp \<and> fc_array_index fc = i) fcurves of
        Some p \<Rightarrow> (fcurves, p)
      | None \<Rightarrow> (fcurves @ [\<lparr>fc_data_path = dp, fc_array_index = i,
                               fc_action_group = bone_name, keyframe_points = []\<rparr>],
                 length fcurves))"

definition kf_zero_data_of :: "real list option \<Rightarrow> nat \<Rightarrow> real list \<Rightarrow> py_error + kf_array" where
  "kf_zero_data_of default' i zero_frames' =
     map_err (\<lambda>f. bind_err (default_at default' i) (\<lambda>v. Inr (f, v))) zero_frames'"

definition stack_rows :: "kf_array option \<Rightarrow> kf_array \<Rightarrow> real list \<Rightarrow> py_error + kf_array" where
  "stack_rows data' kf_zero_data zero_frames' =
     (case data' of
        Some rows \<Rightarrow>
          if rows \<noteq> [] then
            (if zero_frames' = [] then Inl ValueError else Inr (rows @ kf_zero_data))
          else Inr kf_zero_data
      | None \<Rightarrow> Inr kf_zero_data)"

definition write_channel :: "import_host \<Rightarrow> kf_array \<Rightarrow> fcurve list \<times> nat \<Rightarrow> fcurve list" where
  "write_channel host kf_data fp =
     (let fc = fst fp ! snd fp;
          written = populate_keyframe_points_from_np_array host (keyframe_points fc) kf_data;
          linear = map (\<lambda>kf. kf\<lparr>interpolation := ''LINEAR''\<rparr>) written
      in (fst fp)[snd fp := fc\<lparr>keyframe_points := linear\<rparr>])"

definition populate_channel ::
  "import_host \<Rightarrow> string \<Rightarrow> string \<Rightarrow> real list option \<Rightarrow> data_per_array_index \<Rightarrow> real list \<Rightarrow> nat
     \<Rightarrow> fcurve list \<Rightarrow> py_error + fcurve list" where
  "populate_channel host dp bone_name default' d zero_frames' i fcurves =
     (let data' = map_of d (str_nat i);
          fp = find_or_new_fcurve dp i bone_name fcurves
      in bind_err (kf_zero_data_of default' i zero_frames')
           (\<lambda>kf_zero_data.
              bind_err (stack_rows data' kf_zero_data zero_frames')
                (\<lambda>kf_data. Inr (write_channel host kf_data fp))))"

definition import_data_path ::
  "import_host \<Rightarrow> real list \<Rightarrow> string \<times> data_per_array_index \<Rightarrow> fcurve list \<times> string list
     \<Rightarrow> py_error + fcurve list \<times> string list" where
  "import_data_path host zero_frames' item st =
     bind_err (prepare_channels host (fst item) (snd item))
       (\<lambda>p. case p of
               Skip dp \<Rightarrow> Inr (fst st, snd st @ [dp])
             | Plan cp \<Rightarrow>
                 bind_err (fold_err (populate_channel host (cp_dp cp) (cp_bone_name cp)
                                       (cp_default cp) (cp_data cp) zero_frames')
                             [0 ..< cp_channels cp] (fst st))
                   (\<lambda>fcurves. Inr (fcurves, snd st)))"

text \<open>The loop over the loaded action: the f-curves of the temporary action and the
  data paths that could not be imported.\<close>

definition import_action ::
  "import_host \<Rightarrow> (string \<times> data_per_array_index) list \<Rightarrow> nat
     \<Rightarrow> py_error + fcurve list \<times> string list" where
  "import_action host action_dict new_expression_count =
     fold_err (import_data_path host (map real_of_int (zero_frames new_expression_count)))
       action_dict ([], [])"

subsection \<open>The contract of the keyframe writer\<close>

text \<open>
  \<open>populate_keyframe_points_from_np_array\<close> is not part of the embedded sources. What
  is asked of it: every row of the array passed is the coordinate pair of a keyframe point
  of the f-curve afterwards.
\<close>

definition writer_stores_rows :: "import_host \<Rightarrow> bool" where
  "writer_stores_rows host =
     (\<forall>kps rows. set rows \<subseteq> co ` set (populate_keyframe_points_from_np_array host kps rows))"

text \<open>
  An f-curve is keyed for channel \<open>i\<close> of a plan: it has the data path and index of the
  channel, a keyframe with the channel's default value at every zero frame, and only
  linear keyframes.
\<close>

definition keyed_for :: "real list \<Rightarrow> string \<Rightarrow> real list option \<Rightarrow> nat \<Rightarrow> fcurve \<Rightarrow> bool" where
  "keyed_for zero_frames' dp default' i fc =
     (fc_data_path fc = dp \<and> fc_array_index fc = i
      \<and> (\<forall>f \<in> set zero_frames'.
            \<exists>v. default_at default' i = Inr v \<and> (f, v) \<in> co ` set (keyframe_points fc))
      \<and> (\<forall>kf \<in> set (keyframe_points fc). interpolation kf = ''LINEAR''))"

text \<open>
  An f-curve is keyed by a loaded data path: the data path has a plan, and the f-curve is
  keyed for one of the channels of that plan.
\<close>

definition keyed_by_item ::
  "import_host \<Rightarrow> real list \<Rightarrow> string \<times> data_per_array_index \<Rightarrow> fcurve \<Rightarrow> bool" where
  "keyed_by_item host zero_frames' item fc =
     (\<exists>cp. prepare_channels host (fst item) (snd item) = Inr (Plan cp)
         \<and> (\<exists>i < cp_channels cp. keyed_for zero_frames' (cp_dp cp) (cp_default cp) i fc))"

subsection \<open>A small rig to run the loop on\<close>

text \<open>
  One bone \<open>jaw\<close> in Euler mode with a location and two rotation properties. A data
  path is parsed as a path of that bone, to its quaternion rotation when the path names it
  and to its location otherwise. The stand-in for the rotation conversion keeps the first
  three components, so that its argument shows in its result. The writer appends the rows
  as keyframe points with an interpolation of its own.
\<close>

definition example_host :: import_host where
  "example_host =
     \<lparr>parse_pose_bone_data_path =
        (\<lambda>dp. \<lparr>pd_bone_name = ''jaw'',
               pd_prop_name = Some (if str_in ''rotation_quaternion'' dp then ''rotation_quaternion''
                                    else ''location''),
               pd_custom_prop_name = None\<rparr>),
      get_rigify_bone_from_old_name = (\<lambda>n. n),
      path_resolves = (\<lambda>dp. True),
      get_data_path_from_rotation_mode = (\<lambda>m. ''rotation_euler''),
      get_rotation_mode_from_data_path_val = (\<lambda>p. ''QUATERNION''),
      convert_rotation = (\<lambda>a b v. take 3 v),
      populate_keyframe_points_from_np_array =
        (\<lambda>kps rows. kps @ map (\<lambda>r. \<lparr>co = r, interpolation = ''BEZIER''\<rparr>) rows),
      pose_bones = [\<lparr>pb_name = ''jaw'', pb_rotation_mode = ''EULER'',
                     pb_properties = [(''location'', Array_default [0, 0, 0]),
                                      (''rotation_euler'', Array_default [0, 0, 0]),
                                      (''rotation_quaternion'', Array_default [1, 0, 0, 0])],
                     pb_custom_properties = []\<rparr>],
      is_new_rigify_rig = False,
      convert_animation_to_new_rigify = False\<rparr>"

section \<open>animate\_operators.py: operators on the expression list\<close>


subsection \<open>FACEIT\_OT\_AddExpressionItem.execute\<close>





subsection \<open>The scene as the remove and move operators see it\<close>





subsection \<open>FACEIT\_OT\_RemoveExpressionItem.execute\<close>









subsection \<open>FACEIT\_OT\_MoveExpressionItem.execute\<close>











subsection \<open>A small scene to run the operators on\<close>







chapter \<open>Properties\<close>

section \<open>Range remapping\<close>





section \<open>Collecting motion data\<close>

lemma str_int_small: "str_int 0 = ''0''" "str_int 1 = ''1''" "str_int 2 = ''2''"
  by (simp_all add: str_int_def str_nat.simps digit_char_def)

lemma fcurve_identifier_small:
  "fcurve_identifier dp 0 = dp @ ''_0''"
  "fcurve_identifier dp 1 = dp @ ''_1''"
  "fcurve_identifier dp 2 = dp @ ''_2''"
  by (simp_all add: fcurve_identifier_def str_int_small)

lemma populate_entry_scale:
  assumes "str_in ''scale'' dp"
  shows "populate_entry dp new i (h, bmd) =
           (h, AList.update (fcurve_identifier dp i)
                 \<lparr>md_data_path = dp, md_array_index = i, md_kf_data = new\<rparr> bmd)"
  using assms by (simp add: populate_entry_def Let_def split: option.splits)

lemma populate_entry_sum:
  assumes "\<not> str_in ''scale'' dp"
    and "map_of bmd (fcurve_identifier dp i) = Some md"
    and "length (h ! new) = length (h ! md_kf_data md)"
  shows "populate_entry dp new i (h, bmd) =
           (h[md_kf_data md :=
                map (\<lambda>(r, s). (fst r, snd r + snd s)) (zip (h ! md_kf_data md) (h ! new))], bmd)"
  using assms by (simp add: populate_entry_def Let_def iadd_col1_def)

lemma map_fst_add_zip:
  "length b = length a \<Longrightarrow> map fst (map (\<lambda>(r, s). (fst r, snd r + snd s)) (zip a b)) = map fst a"
  by (induction a arbitrary: b) (auto simp: length_Suc_conv)

text \<open>
  Claim C8. The caller passes \<open>is_scale\<close> as "the data path contains \<open>scale\<close>". For a
  data path that does not contain \<open>scale\<close> and a (data path, array index) pair already
  present, whose stored array has as many rows as the new one, the call adds the new values
  (column 1) element-wise to the stored values and leaves the stored frames (column 0), every
  other array and the dictionary as they were. For a scale data path the new array is stored
  under the array indices 0, 1 and 2, one entry per channel, whatever was stored there, and
  no array is changed: nothing is summed.
\<close>

theorem populate_motion_data_dict_sum_or_overwrite:
  assumes "is_scale = str_in ''scale'' dp"
  shows "(\<not> str_in ''scale'' dp
            \<and> map_of bone_motion_data (fcurve_identifier dp i) = Some stored
            \<and> md_kf_data stored < length h
            \<and> length (h ! new_kf_data) = length (h ! md_kf_data stored)
          \<longrightarrow> (\<exists>h'. populate_motion_data_dict dp (Index i) new_kf_data is_scale h bone_motion_data
                       = (h', bone_motion_data)
                 \<and> length h' = length h
                 \<and> map fst (h' ! md_kf_data stored) = map fst (h ! md_kf_data stored)
                 \<and> length (h' ! md_kf_data stored) = length (h ! md_kf_data stored)
                 \<and> (\<forall>j < length (h ! md_kf_data stored).
                       snd (h' ! md_kf_data stored ! j) =
                         snd (h ! md_kf_data stored ! j) + snd (h ! new_kf_data ! j))
                 \<and> (\<forall>a < length h. a \<noteq> md_kf_data stored \<longrightarrow> h' ! a = h ! a)))
       \<and> (str_in ''scale'' dp
          \<longrightarrow> (\<exists>bmd'. populate_motion_data_dict dp array_index new_kf_data is_scale h bone_motion_data
                       = (h, bmd')
                 \<and> (\<forall>c \<in> {0, 1, 2}.
                       map_of bmd' (fcurve_identifier dp c) =
                         Some \<lparr>md_data_path = dp, md_array_index = c, md_kf_data = new_kf_data\<rparr>)
                 \<and> (\<forall>k. k \<notin> fcurve_identifier dp ` {0, 1, 2} \<longrightarrow>
                       map_of bmd' k = map_of bone_motion_data k)))"
proof (intro conjI impI)
  assume a: "\<not> str_in ''scale'' dp
            \<and> map_of bone_motion_data (fcurve_identifier dp i) = Some stored
            \<and> md_kf_data stored < length h
            \<and> length (h ! new_kf_data) = length (h ! md_kf_data stored)"
  let ?a = "md_kf_data stored"
  let ?s = "map (\<lambda>(r, s). (fst r, snd r + snd s)) (zip (h ! ?a) (h ! new_kf_data))"
  from a assms have ns: "\<not> is_scale" by simp
  have run: "populate_motion_data_dict dp (Index i) new_kf_data is_scale h bone_motion_data
               = (h[?a := ?s], bone_motion_data)"
    using ns populate_entry_sum [of dp bone_motion_data i stored h new_kf_data] a
    by (simp add: populate_motion_data_dict_def)
  have cell: "h[?a := ?s] ! ?a = ?s" using a by simp
  have vals: "\<forall>j < length (h ! ?a). snd (?s ! j) = snd (h ! ?a ! j) + snd (h ! new_kf_data ! j)"
    using a by simp
  have fr: "map fst ?s = map fst (h ! ?a)"
    by (rule map_fst_add_zip) (use a in simp)
  show "\<exists>h'. populate_motion_data_dict dp (Index i) new_kf_data is_scale h bone_motion_data
                       = (h', bone_motion_data)
                 \<and> length h' = length h
                 \<and> map fst (h' ! ?a) = map fst (h ! ?a)
                 \<and> length (h' ! ?a) = length (h ! ?a)
                 \<and> (\<forall>j < length (h ! ?a).
                       snd (h' ! ?a ! j) = snd (h ! ?a ! j) + snd (h ! new_kf_data ! j))
                 \<and> (\<forall>a < length h. a \<noteq> ?a \<longrightarrow> h' ! a = h ! a)"
    unfolding run using cell vals fr a
    by (intro exI [of _ "h[?a := ?s]"]) simp
next
  assume s: "str_in ''scale'' dp"
  let ?e = "\<lambda>c. \<lparr>md_data_path = dp, md_array_index = c, md_kf_data = new_kf_data\<rparr>"
  let ?b = "AList.update (fcurve_identifier dp 2) (?e 2)
              (AList.update (fcurve_identifier dp 1) (?e 1)
                 (AList.update (fcurve_identifier dp 0) (?e 0) bone_motion_data))"
  from s assms have sc: "is_scale" by simp
  have run: "populate_motion_data_dict dp array_index new_kf_data is_scale h bone_motion_data = (h, ?b)"
    using sc by (simp add: populate_motion_data_dict_def populate_entry_scale [OF s])
  have look: "\<forall>c \<in> {0, 1, 2}. map_of ?b (fcurve_identifier dp c) = Some (?e c)"
    by (simp add: update_conv' fcurve_identifier_small)
  have rest: "\<forall>k. k \<notin> fcurve_identifier dp ` {0, 1, 2} \<longrightarrow> map_of ?b k = map_of bone_motion_data k"
    by (simp add: update_conv')
  show "\<exists>bmd'. populate_motion_data_dict dp array_index new_kf_data is_scale h bone_motion_data
                       = (h, bmd')
                 \<and> (\<forall>c \<in> {0, 1, 2}. map_of bmd' (fcurve_identifier dp c) = Some (?e c))
                 \<and> (\<forall>k. k \<notin> fcurve_identifier dp ` {0, 1, 2} \<longrightarrow>
                       map_of bmd' k = map_of bone_motion_data k)"
    unfolding run using look rest by blast
qed

theorem populate_motion_data_dict_sum_or_overwrite_witness:
  "populate_motion_data_dict ''loc'' (Index 0) 1 False
       [[(1, 2), (2, 3)], [(1, 10), (2, 20)]]
       [(''loc_0'', \<lparr>md_data_path = ''loc'', md_array_index = 0, md_kf_data = 0\<rparr>)]
     = ([[(1, 12), (2, 23)], [(1, 10), (2, 20)]],
        [(''loc_0'', \<lparr>md_data_path = ''loc'', md_array_index = 0, md_kf_data = 0\<rparr>)])
   \<and> populate_motion_data_dict ''b.scale'' (Index 0) 0 True [[(1, 2)]] []
     = ([[(1, 2)]],
        [(''b.scale_0'', \<lparr>md_data_path = ''b.scale'', md_array_index = 0, md_kf_data = 0\<rparr>),
         (''b.scale_1'', \<lparr>md_data_path = ''b.scale'', md_array_index = 1, md_kf_data = 0\<rparr>),
         (''b.scale_2'', \<lparr>md_data_path = ''b.scale'', md_array_index = 2, md_kf_data = 0\<rparr>)])"
proof -
  have n: "\<not> str_in ''scale'' ''loc''" by simp
  have s: "str_in ''scale'' ''b.scale''" by simp
  have k: "map_of [(''loc_0'', \<lparr>md_data_path = ''loc'', md_array_index = 0, md_kf_data = 0\<rparr>)]
             (fcurve_identifier ''loc'' 0)
           = Some \<lparr>md_data_path = ''loc'', md_array_index = 0, md_kf_data = 0\<rparr>"
    by (simp add: fcurve_identifier_small)
  have r1: "\<exists>h'. populate_motion_data_dict ''loc'' (Index 0) 1 False
           [[(1, 2), (2, 3)], [(1, 10), (2, 20)]]
           [(''loc_0'', \<lparr>md_data_path = ''loc'', md_array_index = 0, md_kf_data = 0\<rparr>)]
         = (h', [(''loc_0'', \<lparr>md_data_path = ''loc'', md_array_index = 0, md_kf_data = 0\<rparr>)])"
    using populate_motion_data_dict_sum_or_overwrite
         [of False "''loc''"
             "[(''loc_0'', \<lparr>md_data_path = ''loc'', md_array_index = 0, md_kf_data = 0\<rparr>)]" 0
             "\<lparr>md_data_path = ''loc'', md_array_index = 0, md_kf_data = 0\<rparr>"
             "[[(1, 2), (2, 3)], [(1, 10), (2, 20)]]" 1] n k
    by auto
  have r2: "\<exists>bmd'. populate_motion_data_dict ''b.scale'' (Index 0) 0 True [[(1, 2)]] []
              = ([[(1, 2)]], bmd')"
    using populate_motion_data_dict_sum_or_overwrite
         [of True "''b.scale''" "[]" 0 undefined "[[(1, 2)]]" 0 "Index 0"] s
    by auto
  from r1 r2 show ?thesis
    by (simp add: populate_motion_data_dict_def populate_entry_def Let_def
          fcurve_identifier_small iadd_col1_def)
qed

section \<open>Frame offsets of the two bake functions\<close>

subsection \<open>The write loop copies before it offsets\<close>



subsection \<open>The collected arrays keep the frames of the source curves\<close>











subsection \<open>The rows sampled from the drivers\<close>






subsection \<open>The claim\<close>




section \<open>Reading the active f-curves of an ID\<close>

lemma get_active_animation_fcurves_empty_cases:
  "get_active_animation_fcurves_from_id v None = Inr []"
  "get_active_animation_fcurves_from_id v (Some \<lparr>animation_data = None\<rparr>) = Inr []"
  "get_active_animation_fcurves_from_id v
     (Some \<lparr>animation_data = Some \<lparr>adt_action = None, adt_action_slot = s\<rparr>\<rparr>) = Inr []"
  by (simp_all add: get_active_animation_fcurves_from_id_def)

lemma get_active_animation_fcurves_legacy:
  "\<not> version_ge_4_4_0 v \<Longrightarrow>
   get_active_animation_fcurves_from_id v
     (Some \<lparr>animation_data = Some \<lparr>adt_action = Some a, adt_action_slot = s\<rparr>\<rparr>)
   = Inr (legacy_fcurves a)"
  by (simp add: get_active_animation_fcurves_from_id_def)

text \<open>
  Claim C9 says that \<open>get_active_animation_fcurves_from_id\<close> never raises. On Blender
  4.4 an ID whose animation data has an action but no slot assigned reaches
  \<open>return fcurves\<close> with \<open>fcurves\<close> never assigned; so does an ID whose slot has no
  channel bag in the action, and \<open>get_fcurves_from_slot\<close> called with
  \<open>ensure=False\<close> for such a slot.
\<close>

theorem get_active_animation_fcurves_unbound:
  "get_active_animation_fcurves_from_id (4, 4, 0)
     (Some \<lparr>animation_data =
        Some \<lparr>adt_action = Some \<lparr>legacy_fcurves = [], channelbags = [(0, [fc])]\<rparr>,
              adt_action_slot = None\<rparr>\<rparr>)
     = Inl UnboundLocalError
   \<and> get_active_animation_fcurves_from_id (4, 4, 0)
     (Some \<lparr>animation_data =
        Some \<lparr>adt_action = Some \<lparr>legacy_fcurves = [], channelbags = [(0, [fc])]\<rparr>,
              adt_action_slot = Some 1\<rparr>\<rparr>)
     = Inl UnboundLocalError
   \<and> get_fcurves_from_slot (4, 4, 0) ens \<lparr>legacy_fcurves = [], channelbags = [(0, [fc])]\<rparr>
       (Some 1) False
     = Inl UnboundLocalError"
  by (simp add: get_active_animation_fcurves_from_id_def get_fcurves_from_slot_def
        action_get_channelbag_for_slot_def)

section \<open>The automatic action scale\<close>

lemma auto_action_scale_ratio:
  assumes "a \<noteq> 0" "b \<noteq> 0" "c \<noteq> 0"
  shows "auto_action_scale [x, y, z] [a, b, c] = Inr [x / a, y / b, z / c]"
  using assms by (simp add: auto_action_scale_def py_div_def)

lemma fill_zero_dimension_none:
  assumes "a \<noteq> 0" "b \<noteq> 0" "c \<noteq> 0"
  shows "fill_zero_dimension [a, b, c] = Inr [a, b, c]"
  using assms by (simp add: fill_zero_dimension_def)

lemma fill_zero_dimension_one:
  assumes "b \<noteq> 0" "c \<noteq> 0"
  shows "fill_zero_dimension [0, b, c] = Inr [(b + c) / 2, b, c]"
    and "fill_zero_dimension [b, 0, c] = Inr [b, (b + c) / 2, c]"
    and "fill_zero_dimension [b, c, 0] = Inr [b, c, (b + c) / 2]"
  using assms by (simp_all add: fill_zero_dimension_def)

lemma fill_zero_dimension_two:
  assumes "c \<noteq> 0"
  shows "fill_zero_dimension [0, 0, c] = Inr [c, 0, c]"
    and "fill_zero_dimension [0, c, 0] = Inr [c, c, 0]"
    and "fill_zero_dimension [c, 0, 0] = Inr [c, c, 0]"
  using assms by (simp_all add: fill_zero_dimension_def)

text \<open>
  Claim C5 says that under the scale method \<open>AUTO\<close>, with at least one shared
  dimension-check bone, every axis whose imported dimension is 0 is replaced by the average
  of the other dimensions before the rig dimension is divided by it. The code replaces the
  first zero dimension only. With one shared bone all three imported dimensions are 0 and
  the average divides by \<open>3 - 3\<close>; with two bones that differ along one axis only, two
  imported dimensions are 0, the second stays 0 and the scale factor divides by it. Both
  runs end in \<open>ZeroDivisionError\<close> and no scale factor is applied.
\<close>

theorem scale_action_zero_dimensions_raise:
  "scale_action
     \<lparr>rig_type = ''ANY'', FACEIT_CTRL_BONES = [],
      rig_pose_bones = [(''jaw'', (0, 0, 1))], rest_pose = [(''jaw'', (0, 0, 2))],
      scale_eyes = False, scale_method = ''AUTO'', auto_scale_method = ''GLOBAL'',
      new_action_scale = [1, 1, 1]\<rparr>
     = Inl ZeroDivisionError
   \<and> scale_action
     \<lparr>rig_type = ''ANY'', FACEIT_CTRL_BONES = [],
      rig_pose_bones = [(''jaw'', (0, 0, 1)), (''chin'', (1, 1, 3))],
      rest_pose = [(''jaw'', (0, 0, 2)), (''chin'', (0, 0, 4))],
      scale_eyes = False, scale_method = ''AUTO'', auto_scale_method = ''GLOBAL'',
      new_action_scale = [1, 1, 1]\<rparr>
     = Inl ZeroDivisionError"
  by (simp add: scale_action_def get_import_rig_dimensions_def dimensions_of_def extent_def
        py_max_def py_min_def bind_err_def fill_zero_dimension_def get_rig_dimensions_def
        auto_action_scale_def py_div_def Let_def)

section \<open>The exported action dictionary\<close>

lemma py_fmod_10_zero: "py_fmod x 10 = 0 \<longleftrightarrow> (\<exists>k::int. x = 10 * of_int k)"
proof
  assume "py_fmod x 10 = 0"
  then have "x = 10 * of_int \<lfloor>x / 10\<rfloor>" by (simp add: py_fmod_def)
  then show "\<exists>k::int. x = 10 * of_int k" ..
next
  assume "\<exists>k::int. x = 10 * of_int k"
  then obtain k :: int where "x = 10 * of_int k" ..
  then show "py_fmod x 10 = 0" by (simp add: py_fmod_def)
qed

lemma export_kept_keyframes_char:
  "export_kept_keyframes fc =
     filter (\<lambda>row. (\<exists>k::int. fst row = 10 * of_int k) \<and> snd row \<noteq> export_rest_value fc)
       (ex_kf_data fc)"
  by (simp add: export_kept_keyframes_def export_rest_value_def Let_def py_fmod_10_zero
        conj_commute)

lemma export_fcurve_step_lookup:
  "action_dict_lookup (export_fcurve_step rt fc d) dp i =
     (if \<not> export_skips rt (ex_data_path fc) \<and> export_kept_keyframes fc \<noteq> []
         \<and> dp = ex_data_path fc \<and> i = ex_array_index fc
      then Some (export_kept_keyframes fc)
      else action_dict_lookup d dp i)"
proof (cases "export_skips rt (ex_data_path fc) \<or> export_kept_keyframes fc = []")
  case True
  then show ?thesis by (auto simp: export_fcurve_step_def Let_def)
next
  case False
  let ?k = "export_kept_keyframes fc"
  show ?thesis
  proof (cases "map_of d (ex_data_path fc)")
    case None
    with False have "export_fcurve_step rt fc d
                       = AList.update (ex_data_path fc) [(ex_array_index fc, ?k)] d"
      by (simp add: export_fcurve_step_def Let_def)
    with False None show ?thesis
      by (auto simp: action_dict_lookup_def update_conv')
  next
    case (Some dd)
    show ?thesis
    proof (cases "dd = []")
      case True
      with False Some have "export_fcurve_step rt fc d
                       = AList.update (ex_data_path fc) [(ex_array_index fc, ?k)] d"
        by (simp add: export_fcurve_step_def Let_def)
      with False Some True show ?thesis
        by (auto simp: action_dict_lookup_def update_conv')
    next
      case nonempty: False
      with False Some have "export_fcurve_step rt fc d
                       = AList.update (ex_data_path fc) (AList.update (ex_array_index fc) ?k dd) d"
        by (simp add: export_fcurve_step_def Let_def)
      with False Some show ?thesis
        by (auto simp: action_dict_lookup_def update_conv')
    qed
  qed
qed

lemma find_SomeD_set: "find P xs = Some x \<Longrightarrow> x \<in> set xs \<and> P x"
  by (induction xs) (auto split: if_splits)

lemma find_exists: "x \<in> set xs \<Longrightarrow> P x \<Longrightarrow> \<exists>y. find P xs = Some y"
  by (induction xs) auto

lemma distinct_map_eqD:
  "distinct (map f xs) \<Longrightarrow> x \<in> set xs \<Longrightarrow> y \<in> set xs \<Longrightarrow> f x = f y \<Longrightarrow> x = y"
  by (auto simp: distinct_map dest: inj_onD)

lemma export_fold_lookup:
  assumes "distinct (map (\<lambda>fc. (ex_data_path fc, ex_array_index fc)) fcs)"
  shows "action_dict_lookup (fold (export_fcurve_step rt) fcs d) dp i =
           (case find (\<lambda>fc. (ex_data_path fc, ex_array_index fc) = (dp, i)) fcs of
              Some fc \<Rightarrow>
                if \<not> export_skips rt (ex_data_path fc) \<and> export_kept_keyframes fc \<noteq> []
                then Some (export_kept_keyframes fc) else action_dict_lookup d dp i
            | None \<Rightarrow> action_dict_lookup d dp i)"
  using assms
proof (induction fcs arbitrary: d)
  case Nil
  then show ?case by simp
next
  case (Cons fc fcs)
  from Cons.prems have dist: "distinct (map (\<lambda>fc. (ex_data_path fc, ex_array_index fc)) fcs)"
    by simp
  let ?key = "\<lambda>fc. (ex_data_path fc, ex_array_index fc)"
  from Cons.prems have nk: "?key fc \<notin> ?key ` set fcs" by simp
  have fresh: "\<forall>x \<in> set fcs. ?key x \<noteq> ?key fc"
  proof
    fix x assume "x \<in> set fcs"
    then have "?key x \<in> ?key ` set fcs" by (rule imageI)
    with nk show "?key x \<noteq> ?key fc" by metis
  qed
  show ?case
  proof (cases "(ex_data_path fc, ex_array_index fc) = (dp, i)")
    case True
    with fresh have "find (\<lambda>fc. (ex_data_path fc, ex_array_index fc) = (dp, i)) fcs = None"
      unfolding find_None_iff by metis
    with True show ?thesis
      by (simp add: Cons.IH [OF dist] export_fcurve_step_lookup)
  next
    case False
    then show ?thesis
      by (auto simp: Cons.IH [OF dist] export_fcurve_step_lookup split: option.splits)
  qed
qed

text \<open>
  Claim C7. For each f-curve of the exported action (the host keeps one f-curve per data path
  and array index) the action dictionary stores exactly the keyframes whose frame is a
  multiple of 10 and whose value differs from the rest value, which is 1 for data paths that
  contain \<open>scale\<close> and for \<open>rotation_quaternion\<close> channels with array index 0, and 0
  for all other channels. F-curves whose data path contains \<open>DEF-\<close>, \<open>MCH-\<close> or
  \<open>ORG-\<close> (on Rigify rigs), \<open>influence\<close> or \<open>mouth_lock\<close> are skipped, an f-curve
  left with no keyframe is omitted, and the dictionary holds nothing else.
\<close>

theorem export_action_keeps_expression_keyframes:
  assumes "distinct (map (\<lambda>fc. (ex_data_path fc, ex_array_index fc)) fcurves)"
  shows "(\<forall>fc \<in> set fcurves.
           (let rest = (if str_in ''scale'' (ex_data_path fc)
                           \<or> (str_in ''rotation_quaternion'' (ex_data_path fc)
                               \<and> ex_array_index fc = 0)
                        then 1 else 0);
                kept = filter (\<lambda>row. (\<exists>k::int. fst row = 10 * of_int k) \<and> snd row \<noteq> rest)
                         (ex_kf_data fc);
                skipped = (((rig_type' = ''RIGIFY'' \<or> rig_type' = ''RIGIFY_NEW'')
                            \<and> (str_in ''DEF-'' (ex_data_path fc) \<or> str_in ''MCH-'' (ex_data_path fc)
                                \<or> str_in ''ORG-'' (ex_data_path fc)))
                           \<or> str_in ''influence'' (ex_data_path fc)
                           \<or> str_in ''mouth_lock'' (ex_data_path fc))
            in action_dict_lookup (export_action rig_type' fcurves)
                 (ex_data_path fc) (ex_array_index fc)
               = (if skipped \<or> kept = [] then None else Some kept)))
       \<and> (\<forall>dp i rows.
           action_dict_lookup (export_action rig_type' fcurves) dp i = Some rows
           \<longrightarrow> (\<exists>fc \<in> set fcurves. ex_data_path fc = dp \<and> ex_array_index fc = i
                  \<and> rows = export_kept_keyframes fc))"
proof (rule conjI)
  note look = export_fold_lookup [OF assms, of rig_type' "[]"]
  have empty: "action_dict_lookup [] dp i = None" for dp i
    by (simp add: action_dict_lookup_def)
  show "\<forall>fc \<in> set fcurves.
           (let rest = (if str_in ''scale'' (ex_data_path fc)
                           \<or> (str_in ''rotation_quaternion'' (ex_data_path fc)
                               \<and> ex_array_index fc = 0)
                        then 1 else 0);
                kept = filter (\<lambda>row. (\<exists>k::int. fst row = 10 * of_int k) \<and> snd row \<noteq> rest)
                         (ex_kf_data fc);
                skipped = (((rig_type' = ''RIGIFY'' \<or> rig_type' = ''RIGIFY_NEW'')
                            \<and> (str_in ''DEF-'' (ex_data_path fc) \<or> str_in ''MCH-'' (ex_data_path fc)
                                \<or> str_in ''ORG-'' (ex_data_path fc)))
                           \<or> str_in ''influence'' (ex_data_path fc)
                           \<or> str_in ''mouth_lock'' (ex_data_path fc))
            in action_dict_lookup (export_action rig_type' fcurves)
                 (ex_data_path fc) (ex_array_index fc)
               = (if skipped \<or> kept = [] then None else Some kept))"
  proof
    fix fc assume fc: "fc \<in> set fcurves"
    let ?key = "\<lambda>fc. (ex_data_path fc, ex_array_index fc)"
    from find_exists [OF fc, of "\<lambda>x. ?key x = ?key fc"] obtain g where
      g: "find (\<lambda>x. ?key x = ?key fc) fcurves = Some g"
      by auto
    from find_SomeD_set [OF g] have "g \<in> set fcurves" "?key g = ?key fc" by simp_all
    with assms fc have "g = fc"
      by (rule_tac distinct_map_eqD [of ?key fcurves]) simp_all
    with g(1) look [of "ex_data_path fc" "ex_array_index fc"] empty
    have "action_dict_lookup (export_action rig_type' fcurves)
                 (ex_data_path fc) (ex_array_index fc)
          = (if \<not> export_skips rig_type' (ex_data_path fc) \<and> export_kept_keyframes fc \<noteq> []
             then Some (export_kept_keyframes fc) else None)"
      by (simp add: export_action_def)
    then show "(let rest = (if str_in ''scale'' (ex_data_path fc)
                           \<or> (str_in ''rotation_quaternion'' (ex_data_path fc)
                               \<and> ex_array_index fc = 0)
                        then 1 else 0);
                kept = filter (\<lambda>row. (\<exists>k::int. fst row = 10 * of_int k) \<and> snd row \<noteq> rest)
                         (ex_kf_data fc);
                skipped = (((rig_type' = ''RIGIFY'' \<or> rig_type' = ''RIGIFY_NEW'')
                            \<and> (str_in ''DEF-'' (ex_data_path fc) \<or> str_in ''MCH-'' (ex_data_path fc)
                                \<or> str_in ''ORG-'' (ex_data_path fc)))
                           \<or> str_in ''influence'' (ex_data_path fc)
                           \<or> str_in ''mouth_lock'' (ex_data_path fc))
            in action_dict_lookup (export_action rig_type' fcurves)
                 (ex_data_path fc) (ex_array_index fc)
               = (if skipped \<or> kept = [] then None else Some kept))"
      unfolding Let_def export_kept_keyframes_char export_rest_value_def export_skips_def
      by auto
  qed
  show "\<forall>dp i rows.
           action_dict_lookup (export_action rig_type' fcurves) dp i = Some rows
           \<longrightarrow> (\<exists>fc \<in> set fcurves. ex_data_path fc = dp \<and> ex_array_index fc = i
                  \<and> rows = export_kept_keyframes fc)"
  proof (intro allI impI)
    fix dp i rows
    assume s: "action_dict_lookup (export_action rig_type' fcurves) dp i = Some rows"
    show "\<exists>fc \<in> set fcurves. ex_data_path fc = dp \<and> ex_array_index fc = i
                  \<and> rows = export_kept_keyframes fc"
    proof (cases "find (\<lambda>fc. (ex_data_path fc, ex_array_index fc) = (dp, i)) fcurves")
      case None
      with s look [of dp i] empty show ?thesis by (simp add: export_action_def)
    next
      case (Some fc)
      then have "fc \<in> set fcurves" "ex_data_path fc = dp" "ex_array_index fc = i"
        by (auto dest: find_SomeD_set)
      moreover from s Some look [of dp i] empty have "rows = export_kept_keyframes fc"
        by (auto simp: export_action_def split: if_splits)
      ultimately show ?thesis by blast
    qed
  qed
qed

theorem export_action_keeps_expression_keyframes_witness:
  "distinct (map (\<lambda>fc. (ex_data_path fc, ex_array_index fc))
     [\<lparr>ex_data_path = ''jaw.location'', ex_array_index = 1,
       ex_kf_data = [(1, 0), (10, 1 / 2), (11, 0), (20, 0)]\<rparr>,
      \<lparr>ex_data_path = ''DEF-jaw.location'', ex_array_index = 0, ex_kf_data = [(10, 3)]\<rparr>,
      \<lparr>ex_data_path = ''jaw.scale'', ex_array_index = 0, ex_kf_data = [(10, 1), (20, 2)]\<rparr>])
   \<and> export_action ''RIGIFY''
     [\<lparr>ex_data_path = ''jaw.location'', ex_array_index = 1,
       ex_kf_data = [(1, 0), (10, 1 / 2), (11, 0), (20, 0)]\<rparr>,
      \<lparr>ex_data_path = ''DEF-jaw.location'', ex_array_index = 0, ex_kf_data = [(10, 3)]\<rparr>,
      \<lparr>ex_data_path = ''jaw.scale'', ex_array_index = 0, ex_kf_data = [(10, 1), (20, 2)]\<rparr>]
     = [(''jaw.location'', [(1, [(10, 1 / 2)])]), (''jaw.scale'', [(0, [(20, 2)])])]"
proof -
  let ?fcs = "[\<lparr>ex_data_path = ''jaw.location'', ex_array_index = 1,
                 ex_kf_data = [(1, 0), (10, 1 / 2), (11, 0), (20, 0)]\<rparr>,
               \<lparr>ex_data_path = ''DEF-jaw.location'', ex_array_index = 0, ex_kf_data = [(10, 3)]\<rparr>,
               \<lparr>ex_data_path = ''jaw.scale'', ex_array_index = 0,
                 ex_kf_data = [(10, 1), (20, 2)]\<rparr>]"
  have d: "distinct (map (\<lambda>fc. (ex_data_path fc, ex_array_index fc)) ?fcs)" by simp
  have fl: "\<lfloor>(1::real) / 10\<rfloor> = 0" "\<lfloor>(11::real) / 10\<rfloor> = 1" by simp_all
  have e: "export_action ''RIGIFY'' ?fcs
             = [(''jaw.location'', [(1, [(10, 1 / 2)])]), (''jaw.scale'', [(0, [(20, 2)])])]"
    by (simp add: export_action_def export_fcurve_step_def export_skips_def
          export_kept_keyframes_def py_fmod_def fl Let_def)
  from export_action_keeps_expression_keyframes [OF d, of "''RIGIFY''"] d e
  show ?thesis by blast
qed

section \<open>Importing a loaded action\<close>

subsection \<open>Zero frames\<close>

lemma set_zero_frames:
  "set (zero_frames n) = (\<lambda>i. (int i + 1) * 10 + 1) ` {..<n} \<union> (\<lambda>i. (int i + 1) * 10 - 9) ` {..<n}"
  by (auto simp: zero_frames_def)

lemma sorted_zero_frames: "sorted (zero_frames n)" "distinct (zero_frames n)"
  by (simp_all add: zero_frames_def)

subsection \<open>One channel\<close>

lemma find_index_Some:
  "find_index P xs = Some p \<Longrightarrow> p < length xs \<and> P (xs ! p)"
proof (induction xs arbitrary: p)
  case Nil
  then show ?case by simp
next
  case (Cons x xs)
  show ?case
  proof (cases "P x")
    case True
    with Cons.prems show ?thesis by simp
  next
    case False
    with Cons.prems obtain q where "find_index P xs = Some q" "p = Suc q" by auto
    with Cons.IH [of q] show ?thesis by simp
  qed
qed

lemma map_err_zero_rows:
  assumes "map_err (\<lambda>f. bind_err m (\<lambda>v. Inr (f, v))) zf = Inr rows"
  shows "\<forall>f \<in> set zf. \<exists>v. m = Inr v \<and> (f, v) \<in> set rows"
  using assms
proof (induction zf arbitrary: rows)
  case Nil
  then show ?case by simp
next
  case (Cons f zf)
  from Cons.prems obtain v rest where
    v: "m = Inr v" and r: "map_err (\<lambda>f. bind_err m (\<lambda>v. Inr (f, v))) zf = Inr rest"
    and rows: "rows = (f, v) # rest"
    by (auto simp: bind_err_def split: sum.splits)
  from Cons.IH [OF r] v rows show ?case by auto
qed

lemma find_or_new_fcurve_pos:
  assumes "find_or_new_fcurve dp i bn fcs = (fcs1, pos)"
  shows "pos < length fcs1" and "fc_data_path (fcs1 ! pos) = dp" and "fc_array_index (fcs1 ! pos) = i"
    and "\<forall>j < length fcs1. j \<noteq> pos \<longrightarrow> fcs1 ! j \<in> set fcs"
proof -
  let ?P = "\<lambda>fc. fc_data_path fc = dp \<and> fc_array_index fc = i"
  have "pos < length fcs1 \<and> ?P (fcs1 ! pos) \<and> (\<forall>j < length fcs1. j \<noteq> pos \<longrightarrow> fcs1 ! j \<in> set fcs)"
  proof (cases "find_index ?P fcs")
    case None
    with assms have "fcs1 = fcs @ [\<lparr>fc_data_path = dp, fc_array_index = i,
                               fc_action_group = bn, keyframe_points = []\<rparr>]" "pos = length fcs"
      by (simp_all add: find_or_new_fcurve_def)
    then show ?thesis by (simp add: nth_append)
  next
    case (Some p)
    with assms have "fcs1 = fcs" "pos = p" by (simp_all add: find_or_new_fcurve_def)
    with find_index_Some [OF Some] show ?thesis by simp
  qed
  then show "pos < length fcs1" and "fc_data_path (fcs1 ! pos) = dp"
    and "fc_array_index (fcs1 ! pos) = i"
    and "\<forall>j < length fcs1. j \<noteq> pos \<longrightarrow> fcs1 ! j \<in> set fcs"
    by simp_all
qed

lemma stack_rows_sub: "stack_rows data' z zf = Inr k \<Longrightarrow> set z \<subseteq> set k"
  by (cases data') (auto simp: stack_rows_def split: if_splits)

lemma write_channel_result:
  assumes w: "writer_stores_rows host" and p: "pos < length fcs1"
  shows "\<exists>fc'. write_channel host k (fcs1, pos) = fcs1[pos := fc']
           \<and> fc_data_path fc' = fc_data_path (fcs1 ! pos)
           \<and> fc_array_index fc' = fc_array_index (fcs1 ! pos)
           \<and> set k \<subseteq> co ` set (keyframe_points fc')
           \<and> (\<forall>kf \<in> set (keyframe_points fc'). interpolation kf = ''LINEAR'')"
proof -
  let ?fc = "fcs1 ! pos"
  let ?written = "populate_keyframe_points_from_np_array host (keyframe_points ?fc) k"
  let ?linear = "map (\<lambda>kf. kf\<lparr>interpolation := ''LINEAR''\<rparr>) ?written"
  let ?fc' = "?fc\<lparr>keyframe_points := ?linear\<rparr>"
  have c: "co ` set ?linear = co ` set ?written" by (simp add: image_image)
  have s: "set k \<subseteq> co ` set ?written"
    using w unfolding writer_stores_rows_def by blast
  show ?thesis
  proof (rule exI [of _ ?fc'], intro conjI)
    show "write_channel host k (fcs1, pos) = fcs1[pos := ?fc']"
      by (simp add: write_channel_def Let_def)
    show "fc_data_path ?fc' = fc_data_path (fcs1 ! pos)" by simp
    show "fc_array_index ?fc' = fc_array_index (fcs1 ! pos)" by simp
    show "set k \<subseteq> co ` set (keyframe_points ?fc')" using c s by simp
    show "\<forall>kf \<in> set (keyframe_points ?fc'). interpolation kf = ''LINEAR''" by auto
  qed
qed

lemma populate_channel_keys:
  assumes w: "writer_stores_rows host"
    and run: "populate_channel host dp bn df d zf i fcs = Inr fcs'"
  shows "\<forall>fc \<in> set fcs'. fc \<in> set fcs \<or> keyed_for zf dp df i fc"
proof -
  obtain fcs1 pos where fp: "find_or_new_fcurve dp i bn fcs = (fcs1, pos)"
    by (cases "find_or_new_fcurve dp i bn fcs")
  from run obtain z where z: "kf_zero_data_of df i zf = Inr z"
    unfolding populate_channel_def Let_def bind_err_def
    by (cases "kf_zero_data_of df i zf") simp_all
  from run z obtain k where k: "stack_rows (map_of d (str_nat i)) z zf = Inr k"
    unfolding populate_channel_def Let_def bind_err_def
    by (cases "stack_rows (map_of d (str_nat i)) z zf") simp_all
  from run z k fp have res: "fcs' = write_channel host k (fcs1, pos)"
    unfolding populate_channel_def Let_def bind_err_def by simp
  note pos = find_or_new_fcurve_pos [OF fp]
  from write_channel_result [OF w pos(1), of k] obtain fc' where
    wr: "write_channel host k (fcs1, pos) = fcs1[pos := fc']"
    and dp: "fc_data_path fc' = dp" and ix: "fc_array_index fc' = i"
    and rows: "set k \<subseteq> co ` set (keyframe_points fc')"
    and lin: "\<forall>kf \<in> set (keyframe_points fc'). interpolation kf = ''LINEAR''"
    using pos(2,3) by auto
  have keyed: "keyed_for zf dp df i fc'"
    unfolding keyed_for_def
  proof (intro conjI ballI)
    show "fc_data_path fc' = dp" "fc_array_index fc' = i" by (fact dp, fact ix)
  next
    fix f assume "f \<in> set zf"
    with map_err_zero_rows [OF z [unfolded kf_zero_data_of_def]] obtain v where
      "default_at df i = Inr v" "(f, v) \<in> set z" by blast
    with rows stack_rows_sub [OF k]
    show "\<exists>v. default_at df i = Inr v \<and> (f, v) \<in> co ` set (keyframe_points fc')"
      by blast
  next
    fix kf assume "kf \<in> set (keyframe_points fc')"
    with lin show "interpolation kf = ''LINEAR''" by blast
  qed
  show ?thesis
  proof
    fix fc assume "fc \<in> set fcs'"
    with res wr obtain j where j: "j < length fcs1" "fc = fcs1[pos := fc'] ! j"
      by (auto simp: in_set_conv_nth)
    show "fc \<in> set fcs \<or> keyed_for zf dp df i fc"
    proof (cases "j = pos")
      case True
      with j pos(1) keyed show ?thesis by simp
    next
      case False
      with j pos(4) show ?thesis by simp
    qed
  qed
qed

subsection \<open>All channels of a data path, all data paths\<close>

lemma fold_populate_channel_keys:
  assumes w: "writer_stores_rows host"
    and run: "fold_err (populate_channel host dp bn df d zf) js fcs = Inr fcs'"
  shows "\<forall>fc \<in> set fcs'. fc \<in> set fcs \<or> (\<exists>i \<in> set js. keyed_for zf dp df i fc)"
  using run
proof (induction js arbitrary: fcs)
  case Nil
  then show ?case by simp
next
  case (Cons j js)
  from Cons.prems obtain fcs1 where
    s: "populate_channel host dp bn df d zf j fcs = Inr fcs1"
    and r: "fold_err (populate_channel host dp bn df d zf) js fcs1 = Inr fcs'"
    by (auto split: sum.splits)
  show ?case
  proof
    fix fc assume "fc \<in> set fcs'"
    with Cons.IH [OF r] have "fc \<in> set fcs1 \<or> (\<exists>i \<in> set js. keyed_for zf dp df i fc)" by blast
    then show "fc \<in> set fcs \<or> (\<exists>i \<in> set (j # js). keyed_for zf dp df i fc)"
    proof
      assume "fc \<in> set fcs1"
      with populate_channel_keys [OF w s] show ?thesis by auto
    next
      assume "\<exists>i \<in> set js. keyed_for zf dp df i fc"
      then show ?thesis by auto
    qed
  qed
qed

text \<open>An f-curve keyed for a channel of the plan of a loaded data path.\<close>

lemma import_data_path_keys:
  assumes w: "writer_stores_rows host"
    and run: "import_data_path host zf item (fcs, ms) = Inr (fcs', ms')"
  shows "\<forall>fc \<in> set fcs'. fc \<in> set fcs \<or> keyed_by_item host zf item fc"
proof -
  from run obtain p where p: "prepare_channels host (fst item) (snd item) = Inr p"
    unfolding import_data_path_def bind_err_def
    by (cases "prepare_channels host (fst item) (snd item)") simp_all
  show ?thesis
  proof (cases p)
    case (Skip dp)
    with run p have "fcs' = fcs" by (simp add: import_data_path_def bind_err_def)
    then show ?thesis by simp
  next
    case (Plan cp)
    with run p have
      f: "fold_err (populate_channel host (cp_dp cp) (cp_bone_name cp) (cp_default cp) (cp_data cp) zf)
            [0 ..< cp_channels cp] fcs = Inr fcs'"
      unfolding import_data_path_def bind_err_def
      by (auto split: sum.splits)
    show ?thesis
    proof
      fix fc assume "fc \<in> set fcs'"
      with fold_populate_channel_keys [OF w f]
      have "fc \<in> set fcs \<or> (\<exists>i < cp_channels cp. keyed_for zf (cp_dp cp) (cp_default cp) i fc)"
        by auto
      with p Plan show "fc \<in> set fcs \<or> keyed_by_item host zf item fc"
        unfolding keyed_by_item_def by blast
    qed
  qed
qed

lemma fold_import_data_path_keys:
  assumes w: "writer_stores_rows host"
    and run: "fold_err (import_data_path host zf) items st = Inr st'"
  shows "\<forall>fc \<in> set (fst st'). fc \<in> set (fst st) \<or> (\<exists>item \<in> set items. keyed_by_item host zf item fc)"
  using run
proof (induction items arbitrary: st)
  case Nil
  then show ?case by simp
next
  case (Cons item items)
  from Cons.prems obtain st1 where
    s: "import_data_path host zf item st = Inr st1"
    and r: "fold_err (import_data_path host zf) items st1 = Inr st'"
    by (auto split: sum.splits)
  from s have s': "import_data_path host zf item (fst st, snd st) = Inr (fst st1, snd st1)" by simp
  show ?case
  proof
    fix fc assume "fc \<in> set (fst st')"
    with Cons.IH [OF r]
    have "fc \<in> set (fst st1) \<or> (\<exists>it \<in> set items. keyed_by_item host zf it fc)" by blast
    then show "fc \<in> set (fst st) \<or> (\<exists>it \<in> set (item # items). keyed_by_item host zf it fc)"
    proof
      assume "fc \<in> set (fst st1)"
      with import_data_path_keys [OF w s'] show ?thesis by auto
    next
      assume "\<exists>it \<in> set items. keyed_by_item host zf it fc"
      then show ?thesis by auto
    qed
  qed
qed

subsection \<open>The default that is keyed\<close>

lemma channel_defaults_values:
  assumes "channel_defaults (Some pb) (Some pn) custom = Inr cd" and "pn \<noteq> []"
  shows "snd cd = default_values (map_of (pb_properties pb) pn)"
  using assms
  by (auto simp: channel_defaults_def truthy_def default_values_def
        split: option.splits rna_default.splits)

lemma channel_defaults_custom_values:
  assumes "channel_defaults pbo (Some []) (Some c) = Inr cd" and "c \<noteq> []"
  shows "\<exists>pb x. pbo = Some pb \<and> map_of (pb_custom_properties pb) c = Some x
            \<and> snd cd = default_values x"
  using assms
  by (auto simp: channel_defaults_def truthy_def default_values_def
        split: option.splits rna_default.splits)

lemma channel_defaults_bone:
  assumes "channel_defaults pbo (Some pn) custom = Inr cd" and "pn \<noteq> []"
  shows "\<exists>pb. pbo = Some pb"
  using assms
  by (auto simp: channel_defaults_def truthy_def split: option.splits)

lemma prepare_channels_default:
  assumes "prepare_channels host dp d = Inr (Plan cp)"
  shows "cp_default cp = channel_default_values host dp"
proof -
  let ?parsed = "parse_pose_bone_data_path host dp"
  from assms obtain dn where dn: "rename_bone host (dp, pd_bone_name ?parsed) = Inr dn"
    unfolding prepare_channels_def Let_def bind_err_def
    by (cases "rename_bone host (dp, pd_bone_name ?parsed)") auto
  let ?pb = "find (\<lambda>b. pb_name b = snd dn) (pose_bones host)"
  from assms dn have ok: "path_resolves host (fst dn)"
    and tr: "truthy (pd_custom_prop_name ?parsed) \<or> truthy (pd_prop_name ?parsed)"
    unfolding prepare_channels_def Let_def bind_err_def
    by (auto split: if_splits)
  from assms dn ok tr obtain cd where
    cd: "channel_defaults ?pb (pd_prop_name ?parsed) (pd_custom_prop_name ?parsed) = Inr cd"
    unfolding prepare_channels_def Let_def bind_err_def
    by (cases "channel_defaults ?pb (pd_prop_name ?parsed) (pd_custom_prop_name ?parsed)") auto
  from assms dn ok tr cd obtain pn where pn: "pd_prop_name ?parsed = Some pn"
    unfolding prepare_channels_def Let_def bind_err_def
    by (cases "pd_prop_name ?parsed") auto
  note cd' = cd [unfolded pn]
  from tr pn have tr': "(\<not> truthy (pd_custom_prop_name ?parsed) \<and> \<not> truthy (Some pn)) = False"
    by simp
  have plain: "cp_default cp = snd cd"
    if "\<not> str_in ''rotation'' pn
        \<or> (\<exists>pb. ?pb = Some pb \<and> get_data_path_from_rotation_mode host (pb_rotation_mode pb) = pn)"
  proof -
    from that consider (a) "\<not> str_in ''rotation'' pn"
      | (b) pb where "str_in ''rotation'' pn" "?pb = Some pb"
          "get_data_path_from_rotation_mode host (pb_rotation_mode pb) = pn"
      by blast
    then have "\<lparr>cp_dp = fst dn, cp_bone_name = snd dn, cp_channels = fst cd,
                 cp_default = snd cd, cp_data = d\<rparr> = cp"
    proof cases
      case a
      with assms show ?thesis
        unfolding prepare_channels_def Let_def bind_err_def dn pn
        by (simp add: ok tr' cd')
    next
      case b
      with assms show ?thesis
        unfolding prepare_channels_def Let_def bind_err_def dn pn
        by (simp add: ok tr' cd' [unfolded b(2)])
    qed
    then show ?thesis by auto
  qed
  show ?thesis
  proof (cases "pn = []")
    case True
    with tr pn obtain c where c: "pd_custom_prop_name ?parsed = Some c" "c \<noteq> []"
      by (cases "pd_custom_prop_name ?parsed") (auto simp: truthy_def)
    from channel_defaults_custom_values [OF cd [unfolded pn True c(1)] c(2)]
    obtain pb x where pb: "?pb = Some pb" "map_of (pb_custom_properties pb) c = Some x"
      "snd cd = default_values x" by blast
    from True have "\<not> str_in ''rotation'' pn" by simp
    from plain this have "cp_default cp = snd cd" by blast
    moreover have "channel_default_values host dp = default_values x"
      unfolding channel_default_values_def Let_def dn pn True c(1)
      using pb c(2) by (simp add: truthy_def)
    ultimately show ?thesis using pb(3) by simp
  next
    case ne: False
    from channel_defaults_bone [OF cd [unfolded pn] ne] obtain pb where pb: "?pb = Some pb"
      by blast
    note v = channel_defaults_values [OF cd [unfolded pn pb] ne]
    have cdv: "channel_default_values host dp
                 = default_values (map_of (pb_properties pb) (channel_property host pb pn))"
      unfolding channel_default_values_def Let_def dn pn
      using pb ne by (simp add: truthy_def)
    show ?thesis
    proof (cases "str_in ''rotation'' pn
                  \<and> get_data_path_from_rotation_mode host (pb_rotation_mode pb) \<noteq> pn")
      case False
      then have "\<not> str_in ''rotation'' pn
        \<or> (\<exists>pb. ?pb = Some pb \<and> get_data_path_from_rotation_mode host (pb_rotation_mode pb) = pn)"
        using pb by blast
      from plain [OF this] have "cp_default cp = snd cd" .
      moreover from False have "channel_property host pb pn = pn"
        by (auto simp: channel_property_def)
      ultimately show ?thesis using v cdv by simp
    next
      case True
      let ?to = "get_data_path_from_rotation_mode host (pb_rotation_mode pb)"
      let ?conv = "convert_rotation_data host (fst cd) (snd cd)
                     (get_rotation_mode_from_data_path_val host pn) (pb_rotation_mode pb) d"
      from True have rot: "str_in ''rotation'' pn" and other: "?to \<noteq> pn" by simp_all
      from assms obtain d2 where d2: "?conv = Inr d2"
        unfolding prepare_channels_def Let_def bind_err_def dn pn
        by (cases ?conv) (simp_all add: ok tr' rot pb other cd' [unfolded pb])
      from assms have pl: "(case map_of (pb_properties pb) ?to of
                    Some (Array_default df) \<Rightarrow>
                      Inr (Plan \<lparr>cp_dp = py_replace pn ?to (fst dn), cp_bone_name = snd dn,
                                 cp_channels = length df, cp_default = Some df, cp_data = d2\<rparr>)
                  | _ \<Rightarrow> Inl AttributeError) = Inr (Plan cp)"
        unfolding prepare_channels_def Let_def bind_err_def dn pn
        by (simp add: ok tr' rot pb other d2 cd' [unfolded pb])
      then obtain df where df: "map_of (pb_properties pb) ?to = Some (Array_default df)"
        and "cp_default cp = Some df"
        by (auto split: option.splits rna_default.splits)
      moreover from rot have "channel_property host pb pn = ?to"
        by (simp add: channel_property_def)
      ultimately show ?thesis using cdv by (simp add: default_values_def)
    qed
  qed
qed

lemma default_at_Some:
  assumes "default_at (Some d) i = Inr v"
  shows "i < length d \<and> v = d ! i"
  using assms by (auto simp: default_at_def split: if_splits)

lemma default_at_values:
  assumes "default_at dv i = Inr v"
  shows "\<exists>d. dv = Some d \<and> i < length d \<and> v = d ! i"
  using assms by (cases dv) (auto simp: default_at_def split: if_splits)

lemma new_frames_not_zero_frames: "set (new_frames n) \<inter> set (zero_frames n) = {}"
proof -
  have "(int i + 1) * 10 \<noteq> (int j + 1) * 10 + 1" for i j by presburger
  moreover have "(int i + 1) * 10 \<noteq> (int j + 1) * 10 - 9" for i j by presburger
  ultimately show ?thesis
    unfolding set_zero_frames new_frames_def by auto
qed

text \<open>
  Claim C2. The zero frames of an import of \<open>n\<close> expressions are the frames
  \<open>(i+1)*10 + 1\<close> and \<open>(i+1)*10 - 9\<close> for \<open>i\<close> below \<open>n\<close>; none of them is the
  frame \<open>(i+1)*10\<close> of an expression, and those are the frames the operator hands to the
  rescaling functions. When the loop over the loaded action finishes (line 1087), every
  f-curve of the temporary action belongs to a channel of a loaded data path, holds at each
  zero frame a keyframe whose value is the default of the property it animates (for a rotation,
  the property of the bone's rotation mode, whatever rotation the file stored), and has only
  keyframes with \<open>LINEAR\<close> interpolation. The keyframe writer is taken to store every row
  it is given as a keyframe point.
\<close>

theorem import_action_keys_zero_frames:
  assumes "writer_stores_rows host"
    and "import_action host action_dict n = Inr (fcurves, missing_dps)"
  shows "set (zero_frames n)
           = (\<lambda>i. (int i + 1) * 10 + 1) ` {..<n} \<union> (\<lambda>i. (int i + 1) * 10 - 9) ` {..<n}
       \<and> set (new_frames n) \<inter> set (zero_frames n) = {}
       \<and> (\<forall>fc \<in> set fcurves.
             (\<forall>kf \<in> set (keyframe_points fc). interpolation kf = ''LINEAR'')
           \<and> (\<exists>item \<in> set action_dict. \<exists>cp.
                 prepare_channels host (fst item) (snd item) = Inr (Plan cp)
               \<and> fc_data_path fc = cp_dp cp
               \<and> fc_array_index fc < cp_channels cp
               \<and> (\<forall>i < n. \<forall>f \<in> {real_of_int ((int i + 1) * 10 + 1),
                                   real_of_int ((int i + 1) * 10 - 9)}.
                     \<exists>d. channel_default_values host (fst item) = Some d
                        \<and> fc_array_index fc < length d
                        \<and> (f, d ! fc_array_index fc) \<in> co ` set (keyframe_points fc))))"
    (is "?Z \<and> ?N \<and> (\<forall>fc \<in> set fcurves. ?L fc \<and> ?K fc)")
proof (intro conjI)
  show ?Z by (rule set_zero_frames)
next
  show ?N by (rule new_frames_not_zero_frames)
next
  show "\<forall>fc \<in> set fcurves. ?L fc \<and> ?K fc"
  proof
    fix fc assume fc: "fc \<in> set fcurves"
    let ?zf = "map real_of_int (zero_frames n)"
    from fold_import_data_path_keys [OF assms(1) assms(2) [unfolded import_action_def]] fc
    obtain item where item: "item \<in> set action_dict" and k: "keyed_by_item host ?zf item fc"
      by auto
    from k obtain cp i where
      cp: "prepare_channels host (fst item) (snd item) = Inr (Plan cp)"
      and i: "i < cp_channels cp"
      and kf: "keyed_for ?zf (cp_dp cp) (cp_default cp) i fc"
      unfolding keyed_by_item_def by blast
    note dv = prepare_channels_default [OF cp]
    from kf have l: "?L fc" by (simp add: keyed_for_def)
    from kf have idx: "fc_array_index fc = i" by (simp add: keyed_for_def)
    have z: "\<forall>j < n. \<forall>f \<in> {real_of_int ((int j + 1) * 10 + 1), real_of_int ((int j + 1) * 10 - 9)}.
               f \<in> set ?zf"
      unfolding set_map set_zero_frames by blast
    have "\<forall>j < n. \<forall>f \<in> {real_of_int ((int j + 1) * 10 + 1), real_of_int ((int j + 1) * 10 - 9)}.
            \<exists>d. channel_default_values host (fst item) = Some d
               \<and> fc_array_index fc < length d
               \<and> (f, d ! fc_array_index fc) \<in> co ` set (keyframe_points fc)"
    proof (intro allI impI ballI)
      fix j f
      assume "j < n"
        and "f \<in> {real_of_int ((int j + 1) * 10 + 1), real_of_int ((int j + 1) * 10 - 9)}"
      with z have "f \<in> set ?zf" by blast
      with kf obtain v where v: "default_at (cp_default cp) i = Inr v"
        "(f, v) \<in> co ` set (keyframe_points fc)"
        unfolding keyed_for_def by blast
      from default_at_values [OF v(1)] obtain d where
        "cp_default cp = Some d" "i < length d" "v = d ! i" by blast
      with v(2) dv idx
      show "\<exists>d. channel_default_values host (fst item) = Some d
               \<and> fc_array_index fc < length d
               \<and> (f, d ! fc_array_index fc) \<in> co ` set (keyframe_points fc)"
        by (intro exI [of _ d]) simp
    qed
    with item cp i kf have "?K fc"
      unfolding keyed_for_def by blast
    with l show "?L fc \<and> ?K fc" ..
  qed
qed

lemma example_host_writer: "writer_stores_rows example_host"
  by (simp add: writer_stores_rows_def example_host_def image_Un image_image)

lemma zero_frames_one: "zero_frames (Suc 0) = [1, 11]"
  by (simp add: zero_frames_def)

lemma example_host_fields:
  "parse_pose_bone_data_path example_host ''jaw.rotation_quaternion''
     = \<lparr>pd_bone_name = ''jaw'', pd_prop_name = Some ''rotation_quaternion'',
        pd_custom_prop_name = None\<rparr>"
  "pose_bones example_host = [\<lparr>pb_name = ''jaw'', pb_rotation_mode = ''EULER'',
                 pb_properties = [(''location'', Array_default [0, 0, 0]),
                                  (''rotation_euler'', Array_default [0, 0, 0]),
                                  (''rotation_quaternion'', Array_default [1, 0, 0, 0])],
                 pb_custom_properties = []\<rparr>]"
  "path_resolves example_host = (\<lambda>dp. True)"
  "get_data_path_from_rotation_mode example_host = (\<lambda>m. ''rotation_euler'')"
  "get_rotation_mode_from_data_path_val example_host = (\<lambda>p. ''QUATERNION'')"
  "is_new_rigify_rig example_host = False"
  "convert_animation_to_new_rigify example_host = False"
  "populate_keyframe_points_from_np_array example_host
     = (\<lambda>kps rows. kps @ map (\<lambda>r. \<lparr>co = r, interpolation = ''BEZIER''\<rparr>) rows)"
proof -
  have "str_in ''rotation_quaternion'' ''jaw.rotation_quaternion''" by simp
  then show
    "parse_pose_bone_data_path example_host ''jaw.rotation_quaternion''
       = \<lparr>pd_bone_name = ''jaw'', pd_prop_name = Some ''rotation_quaternion'',
          pd_custom_prop_name = None\<rparr>"
    by (simp add: example_host_def)
qed (simp_all add: example_host_def)

lemma prepare_channels_quaternion_example:
  "prepare_channels example_host ''jaw.rotation_quaternion'' [(''1'', [(10, 1 / 2)])]
     = Inr (Plan \<lparr>cp_dp = ''jaw.rotation_euler'', cp_bone_name = ''jaw'', cp_channels = 3,
                  cp_default = Some [0, 0, 0],
                  cp_data = [(''0'', [(10, 1)]), (''1'', [(10, 1 / 2)]), (''2'', [(10, 0)])]\<rparr>)"
proof -
  have s: "str_in ''rotation'' ''rotation_quaternion''" by simp
  have p: "py_replace ''rotation_quaternion'' ''rotation_euler'' ''jaw.rotation_quaternion''
             = ''jaw.rotation_euler''" by simp
  have u: "[0 ..< 4] = [0, 1, 2, 3]" by (simp add: upt_rec)
  have f: "build_frames_dict [(''1'', [(10, 1 / 2)])] = Inr [(10, [(1, 1 / 2)])]"
    by (simp add: build_frames_dict_def py_int_def digit_val_def bind_err_def frames_dict_add_def)
  have r: "reconstruct_rotation 4 (Some [1, 0, 0, 0]) [(1, 1 / 2)] = Inr [1, 1 / 2, 0, 0]"
    by (simp add: reconstruct_rotation_def u default_at_def)
  have c: "convert_rotation_data example_host 4 (Some [1, 0, 0, 0]) ''QUATERNION'' ''EULER''
             [(''1'', [(10, 1 / 2)])]
           = Inr [(''0'', [(10, 1)]), (''1'', [(10, 1 / 2)]), (''2'', [(10, 0)])]"
    by (simp add: convert_rotation_data_def f r bind_err_def example_host_def
          setdefault_append_def str_nat.simps digit_char_def)
  have n4: "(4::nat) = Suc (Suc (Suc (Suc 0)))" by simp
  show ?thesis
    unfolding prepare_channels_def Let_def example_host_fields
    by (simp add: s p c [unfolded n4] rename_bone_def example_host_fields channel_defaults_def
          truthy_def bind_err_def)
qed

theorem import_action_keys_zero_frames_witness:
  "writer_stores_rows example_host
   \<and> import_action example_host [(''jaw.rotation_quaternion'', [(''1'', [(10, 1 / 2)])])] 1 =
       Inr ([\<lparr>fc_data_path = ''jaw.rotation_euler'', fc_array_index = 0, fc_action_group = ''jaw'',
               keyframe_points = [\<lparr>co = (10, 1), interpolation = ''LINEAR''\<rparr>,
                                  \<lparr>co = (1, 0), interpolation = ''LINEAR''\<rparr>,
                                  \<lparr>co = (11, 0), interpolation = ''LINEAR''\<rparr>]\<rparr>,
             \<lparr>fc_data_path = ''jaw.rotation_euler'', fc_array_index = 1, fc_action_group = ''jaw'',
               keyframe_points = [\<lparr>co = (10, 1 / 2), interpolation = ''LINEAR''\<rparr>,
                                  \<lparr>co = (1, 0), interpolation = ''LINEAR''\<rparr>,
                                  \<lparr>co = (11, 0), interpolation = ''LINEAR''\<rparr>]\<rparr>,
             \<lparr>fc_data_path = ''jaw.rotation_euler'', fc_array_index = 2, fc_action_group = ''jaw'',
               keyframe_points = [\<lparr>co = (10, 0), interpolation = ''LINEAR''\<rparr>,
                                  \<lparr>co = (1, 0), interpolation = ''LINEAR''\<rparr>,
                                  \<lparr>co = (11, 0), interpolation = ''LINEAR''\<rparr>]\<rparr>], [])
   \<and> channel_default_values example_host ''jaw.rotation_quaternion'' = Some [0, 0, 0]
   \<and> set (zero_frames 1) = {1, 11}
   \<and> set (new_frames 1) \<inter> set (zero_frames 1) = {}"
proof -
  let ?fcs = "[\<lparr>fc_data_path = ''jaw.rotation_euler'', fc_array_index = 0, fc_action_group = ''jaw'',
               keyframe_points = [\<lparr>co = (10, 1), interpolation = ''LINEAR''\<rparr>,
                                  \<lparr>co = (1, 0), interpolation = ''LINEAR''\<rparr>,
                                  \<lparr>co = (11, 0), interpolation = ''LINEAR''\<rparr>]\<rparr>,
             \<lparr>fc_data_path = ''jaw.rotation_euler'', fc_array_index = 1, fc_action_group = ''jaw'',
               keyframe_points = [\<lparr>co = (10, 1 / 2), interpolation = ''LINEAR''\<rparr>,
                                  \<lparr>co = (1, 0), interpolation = ''LINEAR''\<rparr>,
                                  \<lparr>co = (11, 0), interpolation = ''LINEAR''\<rparr>]\<rparr>,
             \<lparr>fc_data_path = ''jaw.rotation_euler'', fc_array_index = 2, fc_action_group = ''jaw'',
               keyframe_points = [\<lparr>co = (10, 0), interpolation = ''LINEAR''\<rparr>,
                                  \<lparr>co = (1, 0), interpolation = ''LINEAR''\<rparr>,
                                  \<lparr>co = (11, 0), interpolation = ''LINEAR''\<rparr>]\<rparr>]"
  have u3: "[0 ..< 3] = [0, 1, 2]" by (simp add: upt_rec)
  have run: "import_action example_host [(''jaw.rotation_quaternion'', [(''1'', [(10, 1 / 2)])])] 1
               = Inr (?fcs, [])"
    by (simp add: import_action_def zero_frames_one import_data_path_def
          prepare_channels_quaternion_example u3 bind_err_def
          populate_channel_def find_or_new_fcurve_def kf_zero_data_of_def default_at_def
          stack_rows_def write_channel_def str_nat.simps digit_char_def Let_def
          example_host_fields)
  have s: "str_in ''rotation'' ''rotation_quaternion''" by simp
  have dv: "channel_default_values example_host ''jaw.rotation_quaternion'' = Some [0, 0, 0]"
    unfolding channel_default_values_def Let_def example_host_fields
    by (simp add: rename_bone_def example_host_fields truthy_def channel_property_def s
          default_values_def)
  note t = import_action_keys_zero_frames [OF example_host_writer run]
  from t [THEN conjunct1] have z: "set (zero_frames 1) = {1, 11}"
    by (simp add: lessThan_Suc)
  from t [THEN conjunct2, THEN conjunct1]
  have nz: "set (new_frames 1) \<inter> set (zero_frames 1) = {}" .
  note w = example_host_writer
  show ?thesis by (intro conjI; fact)
qed

lemma reconstruct_rotation_example:
  "reconstruct_rotation 4 (Some [1, 0, 0, 0]) [(0, 0), (1, 1)] = Inr [1, 1, 0, 0]"
proof -
  have u: "[0 ..< 4] = [0, 1, 2, 3]" by (simp add: upt_rec)
  show ?thesis by (simp add: reconstruct_rotation_def u default_at_def)
qed

lemma convert_rotation_data_example:
  "convert_rotation_data host 4 (Some [1, 0, 0, 0]) rot_mode_from rot_mode_to
         [(''0'', [(10, 0)]), (''1'', [(10, 1)])]
       = Inr (fold (\<lambda>iv. setdefault_append (str_nat (fst iv)) (10, snd iv))
                (enumerate 0 (convert_rotation host rot_mode_from rot_mode_to [1, 1, 0, 0])) [])"
proof -
  have f: "build_frames_dict [(''0'', [(10, 0)]), (''1'', [(10, 1)])] = Inr [(10, [(0, 0), (1, 1)])]"
    by (simp add: build_frames_dict_def py_int_def digit_val_def bind_err_def frames_dict_add_def)
  show ?thesis
    by (simp add: convert_rotation_data_def f reconstruct_rotation_example bind_err_def)
qed

text \<open>
  Claim C4 says that the conversion of a rotation fills exactly the channels that have no
  stored sample with the channel's default. The code tests \<open>if val:\<close>, which is also
  false for a stored sample of 0. A quaternion keyed at frame 10 with \<open>w = 0\<close> and
  \<open>x = 1\<close> (half a turn about the x axis) is rebuilt as \<open>(1, 1, 0, 0)\<close>: the stored
  \<open>w\<close> is replaced by the default 1 of that channel, and the conversion is applied to
  the rebuilt vector.
\<close>

theorem reconstruct_rotation_drops_zero_sample:
  "reconstruct_rotation 4 (Some [1, 0, 0, 0]) [(0, 0), (1, 1)] = Inr [1, 1, 0, 0]
   \<and> convert_rotation_data host 4 (Some [1, 0, 0, 0]) rot_mode_from rot_mode_to
         [(''0'', [(10, 0)]), (''1'', [(10, 1)])]
       = Inr (fold (\<lambda>iv. setdefault_append (str_nat (fst iv)) (10, snd iv))
                (enumerate 0 (convert_rotation host rot_mode_from rot_mode_to [1, 1, 0, 0])) [])
   \<and> prepare_channels example_host ''jaw.rotation_quaternion''
         [(''0'', [(10, 0)]), (''1'', [(10, 1)])]
       = Inr (Plan \<lparr>cp_dp = ''jaw.rotation_euler'', cp_bone_name = ''jaw'', cp_channels = 3,
                    cp_default = Some [0, 0, 0],
                    cp_data = [(''0'', [(10, 1)]), (''1'', [(10, 1)]), (''2'', [(10, 0)])]\<rparr>)"
proof (intro conjI)
  show "reconstruct_rotation 4 (Some [1, 0, 0, 0]) [(0, 0), (1, 1)] = Inr [1, 1, 0, 0]"
    by (rule reconstruct_rotation_example)
  show "convert_rotation_data host 4 (Some [1, 0, 0, 0]) rot_mode_from rot_mode_to
         [(''0'', [(10, 0)]), (''1'', [(10, 1)])]
       = Inr (fold (\<lambda>iv. setdefault_append (str_nat (fst iv)) (10, snd iv))
                (enumerate 0 (convert_rotation host rot_mode_from rot_mode_to [1, 1, 0, 0])) [])"
    by (rule convert_rotation_data_example)
  have s: "str_in ''rotation'' ''rotation_quaternion''"
    "str_in ''rotation_quaternion'' ''jaw.rotation_quaternion''" by simp_all
  have p: "py_replace ''rotation_quaternion'' ''rotation_euler'' ''jaw.rotation_quaternion''
             = ''jaw.rotation_euler''" by simp
  have c: "convert_rotation_data example_host 4 (Some [1, 0, 0, 0]) ''QUATERNION'' ''EULER''
             [(''0'', [(10, 0)]), (''1'', [(10, 1)])]
           = Inr [(''0'', [(10, 1)]), (''1'', [(10, 1)]), (''2'', [(10, 0)])]"
    unfolding convert_rotation_data_example
    by (simp add: example_host_def setdefault_append_def str_nat.simps digit_char_def)
  show "prepare_channels example_host ''jaw.rotation_quaternion''
         [(''0'', [(10, 0)]), (''1'', [(10, 1)])]
       = Inr (Plan \<lparr>cp_dp = ''jaw.rotation_euler'', cp_bone_name = ''jaw'', cp_channels = 3,
                    cp_default = Some [0, 0, 0],
                    cp_data = [(''0'', [(10, 1)]), (''1'', [(10, 1)]), (''2'', [(10, 0)])]\<rparr>)"
  proof -
    have e: "parse_pose_bone_data_path example_host ''jaw.rotation_quaternion''
               = \<lparr>pd_bone_name = ''jaw'', pd_prop_name = Some ''rotation_quaternion'',
                  pd_custom_prop_name = None\<rparr>"
      "pose_bones example_host = [\<lparr>pb_name = ''jaw'', pb_rotation_mode = ''EULER'',
                     pb_properties = [(''location'', Array_default [0, 0, 0]),
                                      (''rotation_euler'', Array_default [0, 0, 0]),
                                      (''rotation_quaternion'', Array_default [1, 0, 0, 0])],
                     pb_custom_properties = []\<rparr>]"
      "path_resolves example_host = (\<lambda>dp. True)"
      "get_data_path_from_rotation_mode example_host = (\<lambda>m. ''rotation_euler'')"
      "get_rotation_mode_from_data_path_val example_host = (\<lambda>p. ''QUATERNION'')"
      "is_new_rigify_rig example_host = False"
      "convert_animation_to_new_rigify example_host = False"
      by (simp_all add: example_host_def s)
    have n4: "(4::nat) = Suc (Suc (Suc (Suc 0)))" by simp
    show ?thesis
      unfolding prepare_channels_def Let_def e
      by (simp add: s p c [unfolded n4] rename_bone_def e channel_defaults_def truthy_def
            bind_err_def)
  qed
qed

section \<open>The frames of the expression list\<close>



subsection \<open>Adding an item\<close>










subsection \<open>Removing an item\<close>







subsection \<open>Moving an item\<close>























section \<open>Mirror names\<close>

subsection \<open>Replacing in strings\<close>

lemma str_in_iff: "str_in x s \<longleftrightarrow> (\<exists>p q. s = p @ x @ q)"
proof (induction s)
  case Nil
  then show ?case by auto
next
  case (Cons c s)
  show ?case
  proof
    assume "str_in x (c # s)"
    then consider "prefix x (c # s)" | "str_in x s" by auto
    then show "\<exists>p q. c # s = p @ x @ q"
    proof cases
      case 1
      then obtain q where "c # s = x @ q" by (auto simp: prefix_def)
      then have "c # s = [] @ x @ q" by simp
      then show ?thesis by blast
    next
      case 2
      with Cons.IH obtain p q where "s = p @ x @ q" by blast
      then have "c # s = (c # p) @ x @ q" by simp
      then show ?thesis by blast
    qed
  next
    assume "\<exists>p q. c # s = p @ x @ q"
    then obtain p q where e: "c # s = p @ x @ q" by blast
    show "str_in x (c # s)"
    proof (cases p)
      case Nil
      with e have "prefix x (c # s)" by (simp add: prefix_def)
      then show ?thesis by simp
    next
      case (Cons a p')
      with e have "s = p' @ x @ q" by simp
      with Cons.IH have "str_in x s" by blast
      then show ?thesis by simp
    qed
  qed
qed

lemma str_in_drop: "str_in x (drop n s) \<Longrightarrow> str_in x s"
proof -
  assume "str_in x (drop n s)"
  then obtain p q where "drop n s = p @ x @ q" unfolding str_in_iff by blast
  then have "s = (take n s @ p) @ x @ q" by (metis append_take_drop_id append_assoc)
  then show ?thesis unfolding str_in_iff by blast
qed

lemma str_in_Cons: "str_in x s \<Longrightarrow> str_in x (c # s)"
  by simp

lemma prefix_str_in: "prefix x s \<Longrightarrow> str_in x s"
  by (cases s) auto

lemma py_replace_id:
  assumes "k \<noteq> []" and "\<not> str_in k s"
  shows "py_replace k v s = s"
  using assms by (induction s) auto

lemma py_replace_nonempty:
  assumes "k \<noteq> []" and "v \<noteq> []" and "s \<noteq> []"
  shows "py_replace k v s \<noteq> []"
  using assms by (cases s) auto

lemma py_replace_present:
  assumes "k \<noteq> []" and "str_in k s"
  shows "str_in v (py_replace k v s)"
  using assms
proof (induction s)
  case Nil
  then show ?case by simp
next
  case (Cons c s)
  show ?case
  proof (cases "prefix k (c # s)")
    case True
    with Cons.prems(1) have "py_replace k v (c # s) = v @ py_replace k v (drop (length k - 1) s)"
      by simp
    then show ?thesis by (simp add: prefix_str_in)
  next
    case False
    with Cons have "str_in v (py_replace k v s)" by simp
    with False Cons.prems(1) show ?thesis by simp
  qed
qed

text \<open>A beginning of the result is a beginning of the argument, or it runs into a replacement.\<close>

lemma prefix_py_replace:
  assumes "k \<noteq> []" and "u \<noteq> []" and "prefix u (py_replace k v s)"
  shows "prefix u s
       \<or> (prefix k s \<and> (prefix u v \<or> prefix v u))
       \<or> (\<exists>u1 u2. u = u1 @ u2 \<and> u1 \<noteq> [] \<and> u2 \<noteq> [] \<and> (prefix u2 v \<or> prefix v u2))"
  using assms(2,3)
proof (induction s arbitrary: u)
  case Nil
  with assms(1) show ?case by simp
next
  case (Cons c s)
  show ?case
  proof (cases "prefix k (c # s)")
    case True
    with assms(1) Cons.prems(2)
    have "prefix u (v @ py_replace k v (drop (length k - 1) s))" by simp
    then have "prefix u v \<or> prefix v u" by (auto simp: prefix_append)
    with True show ?thesis by blast
  next
    case False
    with assms(1) Cons.prems(2) have p: "prefix u (c # py_replace k v s)" by simp
    with Cons.prems(1) obtain u' where u: "u = c # u'" and p': "prefix u' (py_replace k v s)"
      by (cases u) auto
    show ?thesis
    proof (cases "u' = []")
      case True
      with u show ?thesis by simp
    next
      case ne: False
      from Cons.IH [OF ne p'] consider
        (a) "prefix u' s"
        | (b) "prefix u' v \<or> prefix v u'"
        | (c) u1 u2 where "u' = u1 @ u2" "u1 \<noteq> []" "u2 \<noteq> []" "prefix u2 v \<or> prefix v u2"
        by blast
      then show ?thesis
      proof cases
        case a
        with u show ?thesis by simp
      next
        case b
        have "u = [c] @ u'" using u by simp
        with b ne show ?thesis by blast
      next
        case c
        have "u = (c # u1) @ u2" using u c(1) by simp
        with c show ?thesis by blast
      qed
    qed
  qed
qed

text \<open>An occurrence in a string that begins with \<open>v\<close> lies behind \<open>v\<close> or starts inside it.\<close>

lemma str_in_append:
  assumes "x \<noteq> []" and "str_in x (v @ t)"
  shows "str_in x t \<or> (\<exists>w. suffix w v \<and> w \<noteq> [] \<and> (prefix w x \<or> prefix x w))"
  using assms(2)
proof (induction v)
  case Nil
  then show ?case by simp
next
  case (Cons a v)
  from Cons.prems consider "prefix x ((a # v) @ t)" | "str_in x (v @ t)" by auto
  then show ?case
  proof cases
    case 1
    then have "prefix x (a # v) \<or> prefix (a # v) x"
      unfolding prefix_append [of x "a # v" t] by auto
    then show ?thesis by (intro disjI2 exI [of _ "a # v"]) auto
  next
    case 2
    from Cons.IH [OF 2] show ?thesis
    proof
      assume "str_in x t"
      then show ?thesis ..
    next
      assume "\<exists>w. suffix w v \<and> w \<noteq> [] \<and> (prefix w x \<or> prefix x w)"
      then obtain w where "suffix w v" "w \<noteq> []" "prefix w x \<or> prefix x w" by blast
      then show ?thesis by (intro disjI2 exI [of _ w]) (auto simp: suffix_Cons)
    qed
  qed
qed

lemma overlap_free_left:
  assumes "overlap_free x v" and "suffix u x" and "u \<noteq> []"
  shows "\<not> prefix u v" and "\<not> prefix v u"
  using assms by (auto simp: overlap_free_def list_all_iff in_set_suffixes)

lemma overlap_free_right:
  assumes "overlap_free x v" and "suffix w v" and "w \<noteq> []"
  shows "\<not> prefix w x" and "\<not> prefix x w"
  using assms by (auto simp: overlap_free_def list_all_iff in_set_suffixes)

lemma prefix_py_replace_free:
  assumes "k \<noteq> []" and "x \<noteq> []" and "overlap_free x v"
    and "prefix x (py_replace k v s)"
  shows "prefix x s"
proof -
  from prefix_py_replace [OF assms(1,2,4)] consider
    (a) "prefix x s"
    | (b) "prefix x v \<or> prefix v x"
    | (c) u1 u2 where "x = u1 @ u2" "u2 \<noteq> []" "prefix u2 v \<or> prefix v u2"
    by blast
  then show ?thesis
  proof cases
    case a
    then show ?thesis .
  next
    case b
    with overlap_free_left [OF assms(3) suffix_order.refl assms(2)] show ?thesis by blast
  next
    case c
    then have "suffix u2 x" by (simp add: suffix_def)
    with overlap_free_left [OF assms(3) this c(2)] c(3) show ?thesis by blast
  qed
qed

text \<open>A replacement creates no occurrence of a string that cannot overlap the new text.\<close>

lemma no_new_occurrence:
  assumes "k \<noteq> []" and "x \<noteq> []" and "overlap_free x v"
    and "str_in x (py_replace k v s)"
  shows "str_in x s"
  using assms
proof (induction k v s rule: py_replace.induct)
  case (1 old new)
  then show ?case by simp
next
  case (2 old new c cs)
  show ?case
  proof (cases "prefix old (c # cs)")
    case True
    with "2.prems"
    have "str_in x (new @ py_replace old new (drop (length old - 1) cs))" by simp
    from str_in_append [OF "2.prems"(2) this]
    have "str_in x (py_replace old new (drop (length old - 1) cs))"
      using overlap_free_right [OF "2.prems"(3)] by blast
    with "2.IH"(2) [OF "2.prems"(1) True "2.prems"(1,2,3)]
    have "str_in x (drop (length old - 1) cs)" by blast
    then have "str_in x cs" by (rule str_in_drop)
    then show ?thesis by simp
  next
    case False
    with "2.prems" have "str_in x (c # py_replace old new cs)" by simp
    then consider "prefix x (c # py_replace old new cs)" | "str_in x (py_replace old new cs)"
      by auto
    then show ?thesis
    proof cases
      case 1
      with False "2.prems"(1) have "prefix x (py_replace old new (c # cs))" by simp
      from prefix_py_replace_free [OF "2.prems"(1,2,3) this] show ?thesis
        by (rule prefix_str_in)
    next
      case 2
      with "2.IH"(3) [OF "2.prems"(1) False "2.prems"(1,2,3)] show ?thesis by simp
    qed
  qed
qed

text \<open>Every occurrence of the old text is replaced.\<close>

lemma all_replaced:
  assumes "k \<noteq> []" and "overlap_free k v"
  shows "\<not> str_in k (py_replace k v s)"
  using assms
proof (induction k v s rule: py_replace.induct)
  case (1 old new)
  then show ?case by simp
next
  case (2 old new c cs)
  show ?case
  proof (cases "prefix old (c # cs)")
    case True
    show ?thesis
    proof
      assume "str_in old (py_replace old new (c # cs))"
      with True "2.prems"
      have "str_in old (new @ py_replace old new (drop (length old - 1) cs))" by simp
      from str_in_append [OF "2.prems"(1) this]
      have "str_in old (py_replace old new (drop (length old - 1) cs))"
        using overlap_free_right [OF "2.prems"(2)] by blast
      with "2.IH"(2) [OF "2.prems"(1) True "2.prems"] show False by blast
    qed
  next
    case False
    show ?thesis
    proof
      assume "str_in old (py_replace old new (c # cs))"
      with False "2.prems"(1) have "str_in old (c # py_replace old new cs)" by simp
      then consider "prefix old (c # py_replace old new cs)"
        | "str_in old (py_replace old new cs)" by auto
      then show False
      proof cases
        case 1
        with False "2.prems"(1) have "prefix old (py_replace old new (c # cs))" by simp
        from prefix_py_replace_free [OF "2.prems"(1) "2.prems"(1) "2.prems"(2) this] False
        show False by blast
      next
        case 2
        with "2.IH"(3) [OF "2.prems"(1) False "2.prems"] show False by blast
      qed
    qed
  qed
qed

text \<open>A replacement creates no new ending either.\<close>

lemma suffix_of_drop:
  assumes "suffix x (drop n s)"
  shows "suffix x s"
proof -
  have "suffix (drop n s) s" by (rule suffix_drop)
  with assms show ?thesis by (rule suffix_order.trans)
qed

lemma str_in_suffix_prefix:
  assumes "str_in v x"
  shows "\<exists>u. suffix u x \<and> prefix v u"
proof -
  from assms obtain p q where "x = p @ v @ q" unfolding str_in_iff by blast
  then have "suffix (v @ q) x" "prefix v (v @ q)" by (simp_all add: suffix_def)
  then show ?thesis by blast
qed

lemma no_new_suffix:
  assumes "k \<noteq> []" and "v \<noteq> []" and "x \<noteq> []" and "overlap_free x v"
    and "suffix x (py_replace k v s)"
  shows "suffix x s"
  using assms
proof (induction k v s rule: py_replace.induct)
  case (1 old new)
  then show ?case by simp
next
  case (2 old new c cs)
  show ?case
  proof (cases "prefix old (c # cs)")
    case True
    let ?r = "py_replace old new (drop (length old - 1) cs)"
    from True "2.prems"(1,5) have sfx: "suffix x (new @ ?r)" by simp
    have "suffix x ?r"
    proof (rule ccontr)
      assume no: "\<not> suffix x ?r"
      from sfx have "suffix x ?r \<or> (\<exists>w. x = w @ ?r \<and> suffix w new)"
        by (simp only: suffix_append)
      with no obtain w where w: "x = w @ ?r" "suffix w new" by blast
      from w(1) no have "w \<noteq> []" by (cases w) simp_all
      moreover from w(1) have "prefix w x" by simp
      ultimately show False using overlap_free_right [OF "2.prems"(4) w(2)] by blast
    qed
    with "2.IH"(2) [OF "2.prems"(1) True "2.prems"(1,2,3,4)]
    have "suffix x (drop (length old - 1) cs)" by blast
    then have "suffix x cs" by (rule suffix_of_drop)
    then show ?thesis by (simp add: suffix_Cons)
  next
    case False
    with "2.prems" have "suffix x (c # py_replace old new cs)" by simp
    then consider "suffix x (py_replace old new cs)" | "x = c # py_replace old new cs"
      by (auto simp: suffix_Cons)
    then show ?thesis
    proof cases
      case 1
      with "2.IH"(3) [OF "2.prems"(1) False "2.prems"(1,2,3,4)] show ?thesis
        by (simp add: suffix_Cons)
    next
      case 2
      with False "2.prems"(1) have x: "x = py_replace old new (c # cs)" by simp
      show ?thesis
      proof (cases "str_in old (c # cs)")
        case True
        from py_replace_present [OF "2.prems"(1) True] x have "str_in new x" by simp
        from str_in_suffix_prefix [OF this] obtain u where u: "suffix u x" "prefix new u" by blast
        with "2.prems"(2) have "u \<noteq> []" by auto
        with overlap_free_left [OF "2.prems"(4) u(1)] u(2) show ?thesis by blast
      next
        case no: False
        from py_replace_id [OF "2.prems"(1) no] x show ?thesis by simp
      qed
    qed
  qed
qed

text \<open>
  Replacing back gives the name again, when the new text has no repeated character and did
  not occur in the name.
\<close>

lemma distinct_no_border:
  assumes "distinct v" and "v = u1 @ u2" and "u1 \<noteq> []" and "u2 \<noteq> []"
  shows "\<not> prefix u2 v"
proof
  assume "prefix u2 v"
  with assms(4) have "hd u2 = hd v" by (cases u2; cases v) auto
  moreover from assms(2,3) have "hd v = hd u1" by (cases u1) auto
  moreover from assms(1,2) have "set u1 \<inter> set u2 = {}" by simp
  moreover from assms(3,4) have "hd u1 \<in> set u1" "hd u2 \<in> set u2" by simp_all
  ultimately show False by auto
qed

lemma py_replace_prefix:
  assumes "k \<noteq> []"
  shows "py_replace k v (k @ t) = v @ py_replace k v t"
proof -
  from assms obtain a k' where k: "k = a # k'" by (cases k) auto
  then show ?thesis by simp
qed

lemma replace_back:
  assumes "k \<noteq> []" and "v \<noteq> []" and "distinct v" and "\<not> str_in v s"
  shows "py_replace v k (py_replace k v s) = s"
  using assms
proof (induction k v s rule: py_replace.induct)
  case (1 old new)
  then show ?case by simp
next
  case (2 old new c cs)
  show ?case
  proof (cases "prefix old (c # cs)")
    case True
    then obtain r where r: "c # cs = old @ r" by (auto simp: prefix_def)
    with "2.prems"(1) have dr: "drop (length old - 1) cs = r"
      by (cases old) auto
    from "2.prems"(4) r have "\<not> str_in new r"
      by (metis append_Nil str_in_iff append_assoc)
    with "2.IH"(2) [OF "2.prems"(1) True "2.prems"(1,2,3)] dr
    have ih: "py_replace new old (py_replace old new r) = r" by simp
    from r have "py_replace new old (py_replace old new (c # cs)) =
        py_replace new old (py_replace old new (old @ r))" by simp
    also have "\<dots> = py_replace new old (new @ py_replace old new r)"
      using py_replace_prefix [OF "2.prems"(1)] by simp
    also have "\<dots> = old @ py_replace new old (py_replace old new r)"
      using py_replace_prefix [OF "2.prems"(2)] by simp
    also have "\<dots> = c # cs" using ih r by simp
    finally show ?thesis .
  next
    case False
    from "2.prems"(4) have nc: "\<not> str_in new cs" and np: "\<not> prefix new (c # cs)" by auto
    from "2.IH"(3) [OF "2.prems"(1) False "2.prems"(1,2,3) nc]
    have ih: "py_replace new old (py_replace old new cs) = cs" .
    have "\<not> prefix new (c # py_replace old new cs)"
    proof
      assume "prefix new (c # py_replace old new cs)"
      with False "2.prems"(1) have "prefix new (py_replace old new (c # cs))" by simp
      from prefix_py_replace [OF "2.prems"(1,2) this] np False
      obtain u1 u2 where "new = u1 @ u2" "u1 \<noteq> []" "u2 \<noteq> []"
        "prefix u2 new \<or> prefix new u2" by blast
      moreover from this have "\<not> prefix new u2"
        using prefix_length_le [of new u2] by (cases u1) auto
      ultimately show False using distinct_no_border [OF "2.prems"(3)] by blast
    qed
    with False "2.prems"(1,2) ih show ?thesis by simp
  qed
qed

text \<open>A name that ends with the old text ends with the new text after the replacement.\<close>

lemma suffix_replaced:
  assumes "k \<noteq> []" and "distinct k" and "suffix k s"
  shows "suffix v (py_replace k v s)"
  using assms
proof (induction k v s rule: py_replace.induct)
  case (1 old new)
  then show ?case by simp
next
  case (2 old new c cs)
  show ?case
  proof (cases "prefix old (c # cs)")
    case True
    then obtain r where r: "c # cs = old @ r" by (auto simp: prefix_def)
    with "2.prems"(1) have dr: "drop (length old - 1) cs = r" by (cases old) auto
    from True "2.prems"(1) dr
    have m: "py_replace old new (c # cs) = new @ py_replace old new r" by simp
    from "2.prems"(3) r have "suffix old (old @ r)" by simp
    then consider "suffix old r" | x where "old = x @ r" "suffix x old"
      unfolding suffix_append by blast
    then have "r = [] \<or> suffix old r"
    proof cases
      case 1
      then show ?thesis by simp
    next
      case 2
      show ?thesis
      proof (rule ccontr)
        assume "\<not> (r = [] \<or> suffix old r)"
        then have rn: "r \<noteq> []" and ns: "\<not> suffix old r" by simp_all
        from 2(1) ns have xn: "x \<noteq> []" by auto
        from 2(2) obtain w where w: "old = w @ x" by (auto simp: suffix_def)
        from w 2(1) rn have "length w = length r" by (metis add_left_cancel length_append add.commute)
        with rn have wn: "w \<noteq> []" by auto
        from 2(1) have "prefix x old" by simp
        with distinct_no_border [OF "2.prems"(2) w wn xn] show False by simp
      qed
    qed
    then show ?thesis
    proof
      assume "r = []"
      with m "2.prems"(1) show ?thesis by simp
    next
      assume "suffix old r"
      with "2.IH"(2) [OF "2.prems"(1) True "2.prems"(1,2)] dr
      have "suffix new (py_replace old new r)" by simp
      with m show ?thesis by (simp add: suffix_append)
    qed
  next
    case False
    from "2.prems"(3) False have "suffix old cs" by (auto simp: suffix_Cons)
    with "2.IH"(3) [OF "2.prems"(1) False "2.prems"(1,2)]
    have "suffix new (py_replace old new cs)" by simp
    with False "2.prems"(1) show ?thesis by (simp add: suffix_Cons)
  qed
qed

lemma suffix_str_in: "suffix x n \<Longrightarrow> str_in x n"
  unfolding str_in_iff suffix_def by (metis append_Nil2)

lemma suffix_last_eq:
  assumes "suffix x n" and "suffix y n"
  shows "x = [] \<or> y = [] \<or> last x = last y"
proof -
  from assms(1) obtain p where p: "n = p @ x" by (auto simp: suffix_def)
  from assms(2) obtain q where q: "n = q @ y" by (auto simp: suffix_def)
  show ?thesis
  proof (cases "x = [] \<or> y = []")
    case True
    then show ?thesis by blast
  next
    case False
    then have "last (p @ x) = last x" and "last (q @ y) = last y" by simp_all
    with p q show ?thesis by simp
  qed
qed

subsection \<open>The ten kinds of names\<close>

lemma mirror_left_lower:
  assumes k: "str_in ''left'' n"
    and o0: "\<not> str_in ''Left'' n"
    and o1: "\<not> str_in ''LEFT'' n"
    and o2: "\<not> str_in ''right'' n"
    and o3: "\<not> str_in ''Right'' n"
    and o4: "\<not> str_in ''RIGHT'' n"
    and e0: "\<not> suffix ''L'' n" and e1: "\<not> suffix ''_l'' n"
  shows "get_side n = ''L'' \<and> get_mirror_name ''L'' n \<noteq> []
       \<and> get_side (get_mirror_name ''L'' n) = ''R''
       \<and> get_mirror_name ''R'' (get_mirror_name ''L'' n) = n"
proof -
  let ?m = "py_replace ''left'' ''right'' n"
  have v: "str_in ''right'' ?m" by (rule py_replace_present [OF _ k]) simp
  have b: "py_replace ''right'' ''left'' ?m = n" by (rule replace_back [OF _ _ _ o2]) simp_all
  have ne: "?m \<noteq> []" using k by (intro py_replace_nonempty) auto
  have r: "\<not> str_in ''left'' ?m" by (rule all_replaced) (simp_all add: overlap_free_def)
  have n0: "\<not> str_in ''Left'' ?m"
    using no_new_occurrence [of "''left''" "''Left''" "''right''" n] o0 by (auto simp add: overlap_free_def)
  have n1: "\<not> str_in ''LEFT'' ?m"
    using no_new_occurrence [of "''left''" "''LEFT''" "''right''" n] o1 by (auto simp add: overlap_free_def)
  have n3: "\<not> str_in ''Right'' ?m"
    using no_new_occurrence [of "''left''" "''Right''" "''right''" n] o3 by (auto simp add: overlap_free_def)
  have n4: "\<not> str_in ''RIGHT'' ?m"
    using no_new_occurrence [of "''left''" "''RIGHT''" "''right''" n] o4 by (auto simp add: overlap_free_def)
  have s0: "\<not> suffix ''L'' ?m"
    using no_new_suffix [of "''left''" "''right''" "''L''" n] e0 by (auto simp add: overlap_free_def)
  have s1: "\<not> suffix ''_l'' ?m"
    using no_new_suffix [of "''left''" "''right''" "''_l''" n] e1 by (auto simp add: overlap_free_def)
  have g1: "get_side n = ''L''"
    by (simp add: get_side_def get_mirror_name_def mirror_with_def mirror_sides_dict_L_def mirror_sides_dict_R_def
          mirror_sides_end_L_def mirror_sides_end_R_def endswith_def k o0 o1 o2 o3 o4 e0 e1)
  have g2: "get_mirror_name ''L'' n = ?m"
    by (simp add: get_side_def get_mirror_name_def mirror_with_def mirror_sides_dict_L_def mirror_sides_dict_R_def
          mirror_sides_end_L_def mirror_sides_end_R_def endswith_def k o0 o1 o2 o3 o4 e0 e1)
  have g3: "get_side ?m = ''R''"
    by (simp add: get_side_def get_mirror_name_def mirror_with_def mirror_sides_dict_L_def mirror_sides_dict_R_def
          mirror_sides_end_L_def mirror_sides_end_R_def endswith_def v r n0 n1 n3 n4 s0 s1)
  have g4: "get_mirror_name ''R'' ?m = n"
    by (simp add: get_side_def get_mirror_name_def mirror_with_def mirror_sides_dict_L_def mirror_sides_dict_R_def
          mirror_sides_end_L_def mirror_sides_end_R_def endswith_def v r n0 n1 n3 n4 s0 s1 b)
  show ?thesis by (simp add: g1 g2 g3 g4 ne)
qed

lemma mirror_left_capital:
  assumes k: "str_in ''Left'' n"
    and o0: "\<not> str_in ''left'' n"
    and o1: "\<not> str_in ''LEFT'' n"
    and o2: "\<not> str_in ''right'' n"
    and o3: "\<not> str_in ''Right'' n"
    and o4: "\<not> str_in ''RIGHT'' n"
    and e0: "\<not> suffix ''L'' n" and e1: "\<not> suffix ''_l'' n"
  shows "get_side n = ''L'' \<and> get_mirror_name ''L'' n \<noteq> []
       \<and> get_side (get_mirror_name ''L'' n) = ''R''
       \<and> get_mirror_name ''R'' (get_mirror_name ''L'' n) = n"
proof -
  let ?m = "py_replace ''Left'' ''Right'' n"
  have v: "str_in ''Right'' ?m" by (rule py_replace_present [OF _ k]) simp
  have b: "py_replace ''Right'' ''Left'' ?m = n" by (rule replace_back [OF _ _ _ o3]) simp_all
  have ne: "?m \<noteq> []" using k by (intro py_replace_nonempty) auto
  have r: "\<not> str_in ''Left'' ?m" by (rule all_replaced) (simp_all add: overlap_free_def)
  have n0: "\<not> str_in ''left'' ?m"
    using no_new_occurrence [of "''Left''" "''left''" "''Right''" n] o0 by (auto simp add: overlap_free_def)
  have n1: "\<not> str_in ''LEFT'' ?m"
    using no_new_occurrence [of "''Left''" "''LEFT''" "''Right''" n] o1 by (auto simp add: overlap_free_def)
  have n2: "\<not> str_in ''right'' ?m"
    using no_new_occurrence [of "''Left''" "''right''" "''Right''" n] o2 by (auto simp add: overlap_free_def)
  have n4: "\<not> str_in ''RIGHT'' ?m"
    using no_new_occurrence [of "''Left''" "''RIGHT''" "''Right''" n] o4 by (auto simp add: overlap_free_def)
  have s0: "\<not> suffix ''L'' ?m"
    using no_new_suffix [of "''Left''" "''Right''" "''L''" n] e0 by (auto simp add: overlap_free_def)
  have s1: "\<not> suffix ''_l'' ?m"
    using no_new_suffix [of "''Left''" "''Right''" "''_l''" n] e1 by (auto simp add: overlap_free_def)
  have g1: "get_side n = ''L''"
    by (simp add: get_side_def get_mirror_name_def mirror_with_def mirror_sides_dict_L_def mirror_sides_dict_R_def
          mirror_sides_end_L_def mirror_sides_end_R_def endswith_def k o0 o1 o2 o3 o4 e0 e1)
  have g2: "get_mirror_name ''L'' n = ?m"
    by (simp add: get_side_def get_mirror_name_def mirror_with_def mirror_sides_dict_L_def mirror_sides_dict_R_def
          mirror_sides_end_L_def mirror_sides_end_R_def endswith_def k o0 o1 o2 o3 o4 e0 e1)
  have g3: "get_side ?m = ''R''"
    by (simp add: get_side_def get_mirror_name_def mirror_with_def mirror_sides_dict_L_def mirror_sides_dict_R_def
          mirror_sides_end_L_def mirror_sides_end_R_def endswith_def v r n0 n1 n2 n4 s0 s1)
  have g4: "get_mirror_name ''R'' ?m = n"
    by (simp add: get_side_def get_mirror_name_def mirror_with_def mirror_sides_dict_L_def mirror_sides_dict_R_def
          mirror_sides_end_L_def mirror_sides_end_R_def endswith_def v r n0 n1 n2 n4 s0 s1 b)
  show ?thesis by (simp add: g1 g2 g3 g4 ne)
qed

lemma mirror_left_upper:
  assumes k: "str_in ''LEFT'' n"
    and o0: "\<not> str_in ''left'' n"
    and o1: "\<not> str_in ''Left'' n"
    and o2: "\<not> str_in ''right'' n"
    and o3: "\<not> str_in ''Right'' n"
    and o4: "\<not> str_in ''RIGHT'' n"
    and e0: "\<not> suffix ''L'' n" and e1: "\<not> suffix ''_l'' n"
  shows "get_side n = ''L'' \<and> get_mirror_name ''L'' n \<noteq> []
       \<and> get_side (get_mirror_name ''L'' n) = ''R''
       \<and> get_mirror_name ''R'' (get_mirror_name ''L'' n) = n"
proof -
  let ?m = "py_replace ''LEFT'' ''RIGHT'' n"
  have v: "str_in ''RIGHT'' ?m" by (rule py_replace_present [OF _ k]) simp
  have b: "py_replace ''RIGHT'' ''LEFT'' ?m = n" by (rule replace_back [OF _ _ _ o4]) simp_all
  have ne: "?m \<noteq> []" using k by (intro py_replace_nonempty) auto
  have r: "\<not> str_in ''LEFT'' ?m" by (rule all_replaced) (simp_all add: overlap_free_def)
  have n0: "\<not> str_in ''left'' ?m"
    using no_new_occurrence [of "''LEFT''" "''left''" "''RIGHT''" n] o0 by (auto simp add: overlap_free_def)
  have n1: "\<not> str_in ''Left'' ?m"
    using no_new_occurrence [of "''LEFT''" "''Left''" "''RIGHT''" n] o1 by (auto simp add: overlap_free_def)
  have n2: "\<not> str_in ''right'' ?m"
    using no_new_occurrence [of "''LEFT''" "''right''" "''RIGHT''" n] o2 by (auto simp add: overlap_free_def)
  have n3: "\<not> str_in ''Right'' ?m"
    using no_new_occurrence [of "''LEFT''" "''Right''" "''RIGHT''" n] o3 by (auto simp add: overlap_free_def)
  have s0: "\<not> suffix ''L'' ?m"
    using no_new_suffix [of "''LEFT''" "''RIGHT''" "''L''" n] e0 by (auto simp add: overlap_free_def)
  have s1: "\<not> suffix ''_l'' ?m"
    using no_new_suffix [of "''LEFT''" "''RIGHT''" "''_l''" n] e1 by (auto simp add: overlap_free_def)
  have g1: "get_side n = ''L''"
    by (simp add: get_side_def get_mirror_name_def mirror_with_def mirror_sides_dict_L_def mirror_sides_dict_R_def
          mirror_sides_end_L_def mirror_sides_end_R_def endswith_def k o0 o1 o2 o3 o4 e0 e1)
  have g2: "get_mirror_name ''L'' n = ?m"
    by (simp add: get_side_def get_mirror_name_def mirror_with_def mirror_sides_dict_L_def mirror_sides_dict_R_def
          mirror_sides_end_L_def mirror_sides_end_R_def endswith_def k o0 o1 o2 o3 o4 e0 e1)
  have g3: "get_side ?m = ''R''"
    by (simp add: get_side_def get_mirror_name_def mirror_with_def mirror_sides_dict_L_def mirror_sides_dict_R_def
          mirror_sides_end_L_def mirror_sides_end_R_def endswith_def v r n0 n1 n2 n3 s0 s1)
  have g4: "get_mirror_name ''R'' ?m = n"
    by (simp add: get_side_def get_mirror_name_def mirror_with_def mirror_sides_dict_L_def mirror_sides_dict_R_def
          mirror_sides_end_L_def mirror_sides_end_R_def endswith_def v r n0 n1 n2 n3 s0 s1 b)
  show ?thesis by (simp add: g1 g2 g3 g4 ne)
qed

lemma mirror_right_lower:
  assumes k: "str_in ''right'' n"
    and o0: "\<not> str_in ''left'' n"
    and o1: "\<not> str_in ''Left'' n"
    and o2: "\<not> str_in ''LEFT'' n"
    and o3: "\<not> str_in ''Right'' n"
    and o4: "\<not> str_in ''RIGHT'' n"
    and e0: "\<not> suffix ''L'' n" and e1: "\<not> suffix ''_l'' n"
  shows "get_side n = ''R'' \<and> get_mirror_name ''R'' n \<noteq> []
       \<and> get_side (get_mirror_name ''R'' n) = ''L''
       \<and> get_mirror_name ''L'' (get_mirror_name ''R'' n) = n"
proof -
  let ?m = "py_replace ''right'' ''left'' n"
  have v: "str_in ''left'' ?m" by (rule py_replace_present [OF _ k]) simp
  have b: "py_replace ''left'' ''right'' ?m = n" by (rule replace_back [OF _ _ _ o0]) simp_all
  have ne: "?m \<noteq> []" using k by (intro py_replace_nonempty) auto
  have r: "\<not> str_in ''right'' ?m" by (rule all_replaced) (simp_all add: overlap_free_def)
  have n1: "\<not> str_in ''Left'' ?m"
    using no_new_occurrence [of "''right''" "''Left''" "''left''" n] o1 by (auto simp add: overlap_free_def)
  have n2: "\<not> str_in ''LEFT'' ?m"
    using no_new_occurrence [of "''right''" "''LEFT''" "''left''" n] o2 by (auto simp add: overlap_free_def)
  have n3: "\<not> str_in ''Right'' ?m"
    using no_new_occurrence [of "''right''" "''Right''" "''left''" n] o3 by (auto simp add: overlap_free_def)
  have n4: "\<not> str_in ''RIGHT'' ?m"
    using no_new_occurrence [of "''right''" "''RIGHT''" "''left''" n] o4 by (auto simp add: overlap_free_def)
  have g1: "get_side n = ''R''"
    by (simp add: get_side_def get_mirror_name_def mirror_with_def mirror_sides_dict_L_def mirror_sides_dict_R_def
          mirror_sides_end_L_def mirror_sides_end_R_def endswith_def k o0 o1 o2 o3 o4 e0 e1)
  have g2: "get_mirror_name ''R'' n = ?m"
    by (simp add: get_side_def get_mirror_name_def mirror_with_def mirror_sides_dict_L_def mirror_sides_dict_R_def
          mirror_sides_end_L_def mirror_sides_end_R_def endswith_def k o0 o1 o2 o3 o4 e0 e1)
  have g3: "get_side ?m = ''L''"
    by (simp add: get_side_def get_mirror_name_def mirror_with_def mirror_sides_dict_L_def mirror_sides_dict_R_def
          mirror_sides_end_L_def mirror_sides_end_R_def endswith_def v r n1 n2 n3 n4)
  have g4: "get_mirror_name ''L'' ?m = n"
    by (simp add: get_side_def get_mirror_name_def mirror_with_def mirror_sides_dict_L_def mirror_sides_dict_R_def
          mirror_sides_end_L_def mirror_sides_end_R_def endswith_def v r n1 n2 n3 n4 b)
  show ?thesis by (simp add: g1 g2 g3 g4 ne)
qed

lemma mirror_right_capital:
  assumes k: "str_in ''Right'' n"
    and o0: "\<not> str_in ''left'' n"
    and o1: "\<not> str_in ''Left'' n"
    and o2: "\<not> str_in ''LEFT'' n"
    and o3: "\<not> str_in ''right'' n"
    and o4: "\<not> str_in ''RIGHT'' n"
    and e0: "\<not> suffix ''L'' n" and e1: "\<not> suffix ''_l'' n"
  shows "get_side n = ''R'' \<and> get_mirror_name ''R'' n \<noteq> []
       \<and> get_side (get_mirror_name ''R'' n) = ''L''
       \<and> get_mirror_name ''L'' (get_mirror_name ''R'' n) = n"
proof -
  let ?m = "py_replace ''Right'' ''Left'' n"
  have v: "str_in ''Left'' ?m" by (rule py_replace_present [OF _ k]) simp
  have b: "py_replace ''Left'' ''Right'' ?m = n" by (rule replace_back [OF _ _ _ o1]) simp_all
  have ne: "?m \<noteq> []" using k by (intro py_replace_nonempty) auto
  have r: "\<not> str_in ''Right'' ?m" by (rule all_replaced) (simp_all add: overlap_free_def)
  have n0: "\<not> str_in ''left'' ?m"
    using no_new_occurrence [of "''Right''" "''left''" "''Left''" n] o0 by (auto simp add: overlap_free_def)
  have n2: "\<not> str_in ''LEFT'' ?m"
    using no_new_occurrence [of "''Right''" "''LEFT''" "''Left''" n] o2 by (auto simp add: overlap_free_def)
  have n3: "\<not> str_in ''right'' ?m"
    using no_new_occurrence [of "''Right''" "''right''" "''Left''" n] o3 by (auto simp add: overlap_free_def)
  have n4: "\<not> str_in ''RIGHT'' ?m"
    using no_new_occurrence [of "''Right''" "''RIGHT''" "''Left''" n] o4 by (auto simp add: overlap_free_def)
  have g1: "get_side n = ''R''"
    by (simp add: get_side_def get_mirror_name_def mirror_with_def mirror_sides_dict_L_def mirror_sides_dict_R_def
          mirror_sides_end_L_def mirror_sides_end_R_def endswith_def k o0 o1 o2 o3 o4 e0 e1)
  have g2: "get_mirror_name ''R'' n = ?m"
    by (simp add: get_side_def get_mirror_name_def mirror_with_def mirror_sides_dict_L_def mirror_sides_dict_R_def
          mirror_sides_end_L_def mirror_sides_end_R_def endswith_def k o0 o1 o2 o3 o4 e0 e1)
  have g3: "get_side ?m = ''L''"
    by (simp add: get_side_def get_mirror_name_def mirror_with_def mirror_sides_dict_L_def mirror_sides_dict_R_def
          mirror_sides_end_L_def mirror_sides_end_R_def endswith_def v r n0 n2 n3 n4)
  have g4: "get_mirror_name ''L'' ?m = n"
    by (simp add: get_side_def get_mirror_name_def mirror_with_def mirror_sides_dict_L_def mirror_sides_dict_R_def
          mirror_sides_end_L_def mirror_sides_end_R_def endswith_def v r n0 n2 n3 n4 b)
  show ?thesis by (simp add: g1 g2 g3 g4 ne)
qed

lemma mirror_right_upper:
  assumes k: "str_in ''RIGHT'' n"
    and o0: "\<not> str_in ''left'' n"
    and o1: "\<not> str_in ''Left'' n"
    and o2: "\<not> str_in ''LEFT'' n"
    and o3: "\<not> str_in ''right'' n"
    and o4: "\<not> str_in ''Right'' n"
    and e0: "\<not> suffix ''L'' n" and e1: "\<not> suffix ''_l'' n"
  shows "get_side n = ''R'' \<and> get_mirror_name ''R'' n \<noteq> []
       \<and> get_side (get_mirror_name ''R'' n) = ''L''
       \<and> get_mirror_name ''L'' (get_mirror_name ''R'' n) = n"
proof -
  let ?m = "py_replace ''RIGHT'' ''LEFT'' n"
  have v: "str_in ''LEFT'' ?m" by (rule py_replace_present [OF _ k]) simp
  have b: "py_replace ''LEFT'' ''RIGHT'' ?m = n" by (rule replace_back [OF _ _ _ o2]) simp_all
  have ne: "?m \<noteq> []" using k by (intro py_replace_nonempty) auto
  have r: "\<not> str_in ''RIGHT'' ?m" by (rule all_replaced) (simp_all add: overlap_free_def)
  have n0: "\<not> str_in ''left'' ?m"
    using no_new_occurrence [of "''RIGHT''" "''left''" "''LEFT''" n] o0 by (auto simp add: overlap_free_def)
  have n1: "\<not> str_in ''Left'' ?m"
    using no_new_occurrence [of "''RIGHT''" "''Left''" "''LEFT''" n] o1 by (auto simp add: overlap_free_def)
  have n3: "\<not> str_in ''right'' ?m"
    using no_new_occurrence [of "''RIGHT''" "''right''" "''LEFT''" n] o3 by (auto simp add: overlap_free_def)
  have n4: "\<not> str_in ''Right'' ?m"
    using no_new_occurrence [of "''RIGHT''" "''Right''" "''LEFT''" n] o4 by (auto simp add: overlap_free_def)
  have g1: "get_side n = ''R''"
    by (simp add: get_side_def get_mirror_name_def mirror_with_def mirror_sides_dict_L_def mirror_sides_dict_R_def
          mirror_sides_end_L_def mirror_sides_end_R_def endswith_def k o0 o1 o2 o3 o4 e0 e1)
  have g2: "get_mirror_name ''R'' n = ?m"
    by (simp add: get_side_def get_mirror_name_def mirror_with_def mirror_sides_dict_L_def mirror_sides_dict_R_def
          mirror_sides_end_L_def mirror_sides_end_R_def endswith_def k o0 o1 o2 o3 o4 e0 e1)
  have g3: "get_side ?m = ''L''"
    by (simp add: get_side_def get_mirror_name_def mirror_with_def mirror_sides_dict_L_def mirror_sides_dict_R_def
          mirror_sides_end_L_def mirror_sides_end_R_def endswith_def v r n0 n1 n3 n4)
  have g4: "get_mirror_name ''L'' ?m = n"
    by (simp add: get_side_def get_mirror_name_def mirror_with_def mirror_sides_dict_L_def mirror_sides_dict_R_def
          mirror_sides_end_L_def mirror_sides_end_R_def endswith_def v r n0 n1 n3 n4 b)
  show ?thesis by (simp add: g1 g2 g3 g4 ne)
qed

lemma mirror_end_L:
  assumes k: "suffix ''L'' n" and nv: "\<not> str_in ''R'' n"
    and o0: "\<not> str_in ''left'' n"
    and o1: "\<not> str_in ''Left'' n"
    and o2: "\<not> str_in ''LEFT'' n"
    and o3: "\<not> str_in ''right'' n"
    and o4: "\<not> str_in ''Right'' n"
    and o5: "\<not> str_in ''RIGHT'' n"
    and n0: "\<not> str_in ''left'' (py_replace ''L'' ''R'' n)"
    and n1: "\<not> str_in ''Left'' (py_replace ''L'' ''R'' n)"
    and n2: "\<not> str_in ''LEFT'' (py_replace ''L'' ''R'' n)"
    and n3: "\<not> str_in ''right'' (py_replace ''L'' ''R'' n)"
    and n4: "\<not> str_in ''Right'' (py_replace ''L'' ''R'' n)"
    and n5: "\<not> str_in ''RIGHT'' (py_replace ''L'' ''R'' n)"
  shows "get_side n = ''L'' \<and> get_mirror_name ''L'' n \<noteq> []
       \<and> get_side (get_mirror_name ''L'' n) = ''R''
       \<and> get_mirror_name ''R'' (get_mirror_name ''L'' n) = n"
proof -
  let ?m = "py_replace ''L'' ''R'' n"
  from k have kn: "str_in ''L'' n" by (rule suffix_str_in)
  have v: "suffix ''R'' ?m" by (rule suffix_replaced [OF _ _ k]) simp_all
  have b: "py_replace ''R'' ''L'' ?m = n" by (rule replace_back [OF _ _ _ nv]) simp_all
  have ne: "?m \<noteq> []" using kn by (intro py_replace_nonempty) auto
  have s0: "\<not> suffix ''L'' ?m"
    using suffix_last_eq [OF v, of "''L''"] by auto
  have s1: "\<not> suffix ''_l'' ?m"
    using suffix_last_eq [OF v, of "''_l''"] by auto
  have g1: "get_side n = ''L''"
    by (simp add: get_side_def get_mirror_name_def mirror_with_def mirror_sides_dict_L_def mirror_sides_dict_R_def
          mirror_sides_end_L_def mirror_sides_end_R_def endswith_def k o0 o1 o2 o3 o4 o5)
  have g2: "get_mirror_name ''L'' n = ?m"
    by (simp add: get_side_def get_mirror_name_def mirror_with_def mirror_sides_dict_L_def mirror_sides_dict_R_def
          mirror_sides_end_L_def mirror_sides_end_R_def endswith_def k o0 o1 o2 o3 o4 o5)
  have g3: "get_side ?m = ''R''"
    by (simp add: get_side_def get_mirror_name_def mirror_with_def mirror_sides_dict_L_def mirror_sides_dict_R_def
          mirror_sides_end_L_def mirror_sides_end_R_def endswith_def v s0 s1 n0 n1 n2 n3 n4 n5)
  have g4: "get_mirror_name ''R'' ?m = n"
    by (simp add: get_side_def get_mirror_name_def mirror_with_def mirror_sides_dict_L_def mirror_sides_dict_R_def
          mirror_sides_end_L_def mirror_sides_end_R_def endswith_def v s0 s1 n0 n1 n2 n3 n4 n5 b)
  show ?thesis by (simp add: g1 g2 g3 g4 ne)
qed

lemma mirror_end_l:
  assumes k: "suffix ''_l'' n" and nv: "\<not> str_in ''_r'' n"
    and e0: "\<not> suffix ''L'' n"
    and o0: "\<not> str_in ''left'' n"
    and o1: "\<not> str_in ''Left'' n"
    and o2: "\<not> str_in ''LEFT'' n"
    and o3: "\<not> str_in ''right'' n"
    and o4: "\<not> str_in ''Right'' n"
    and o5: "\<not> str_in ''RIGHT'' n"
    and n0: "\<not> str_in ''left'' (py_replace ''_l'' ''_r'' n)"
    and n1: "\<not> str_in ''Left'' (py_replace ''_l'' ''_r'' n)"
    and n2: "\<not> str_in ''LEFT'' (py_replace ''_l'' ''_r'' n)"
    and n3: "\<not> str_in ''right'' (py_replace ''_l'' ''_r'' n)"
    and n4: "\<not> str_in ''Right'' (py_replace ''_l'' ''_r'' n)"
    and n5: "\<not> str_in ''RIGHT'' (py_replace ''_l'' ''_r'' n)"
  shows "get_side n = ''L'' \<and> get_mirror_name ''L'' n \<noteq> []
       \<and> get_side (get_mirror_name ''L'' n) = ''R''
       \<and> get_mirror_name ''R'' (get_mirror_name ''L'' n) = n"
proof -
  let ?m = "py_replace ''_l'' ''_r'' n"
  from k have kn: "str_in ''_l'' n" by (rule suffix_str_in)
  have v: "suffix ''_r'' ?m" by (rule suffix_replaced [OF _ _ k]) simp_all
  have b: "py_replace ''_r'' ''_l'' ?m = n" by (rule replace_back [OF _ _ _ nv]) simp_all
  have ne: "?m \<noteq> []" using kn by (intro py_replace_nonempty) auto
  have s0: "\<not> suffix ''L'' ?m"
    using suffix_last_eq [OF v, of "''L''"] by auto
  have s1: "\<not> suffix ''_l'' ?m"
    using suffix_last_eq [OF v, of "''_l''"] by auto
  have s2: "\<not> suffix ''R'' ?m"
    using suffix_last_eq [OF v, of "''R''"] by auto
  have g1: "get_side n = ''L''"
    by (simp add: get_side_def get_mirror_name_def mirror_with_def mirror_sides_dict_L_def mirror_sides_dict_R_def
          mirror_sides_end_L_def mirror_sides_end_R_def endswith_def k e0 o0 o1 o2 o3 o4 o5)
  have g2: "get_mirror_name ''L'' n = ?m"
    by (simp add: get_side_def get_mirror_name_def mirror_with_def mirror_sides_dict_L_def mirror_sides_dict_R_def
          mirror_sides_end_L_def mirror_sides_end_R_def endswith_def k e0 o0 o1 o2 o3 o4 o5)
  have g3: "get_side ?m = ''R''"
    by (simp add: get_side_def get_mirror_name_def mirror_with_def mirror_sides_dict_L_def mirror_sides_dict_R_def
          mirror_sides_end_L_def mirror_sides_end_R_def endswith_def v s0 s1 s2 n0 n1 n2 n3 n4 n5)
  have g4: "get_mirror_name ''R'' ?m = n"
    by (simp add: get_side_def get_mirror_name_def mirror_with_def mirror_sides_dict_L_def mirror_sides_dict_R_def
          mirror_sides_end_L_def mirror_sides_end_R_def endswith_def v s0 s1 s2 n0 n1 n2 n3 n4 n5 b)
  show ?thesis by (simp add: g1 g2 g3 g4 ne)
qed

lemma mirror_end_R:
  assumes k: "suffix ''R'' n" and nv: "\<not> str_in ''L'' n"
    and e0: "\<not> suffix ''L'' n"
    and e1: "\<not> suffix ''_l'' n"
    and o0: "\<not> str_in ''left'' n"
    and o1: "\<not> str_in ''Left'' n"
    and o2: "\<not> str_in ''LEFT'' n"
    and o3: "\<not> str_in ''right'' n"
    and o4: "\<not> str_in ''Right'' n"
    and o5: "\<not> str_in ''RIGHT'' n"
    and n0: "\<not> str_in ''left'' (py_replace ''R'' ''L'' n)"
    and n1: "\<not> str_in ''Left'' (py_replace ''R'' ''L'' n)"
    and n2: "\<not> str_in ''LEFT'' (py_replace ''R'' ''L'' n)"
    and n3: "\<not> str_in ''right'' (py_replace ''R'' ''L'' n)"
    and n4: "\<not> str_in ''Right'' (py_replace ''R'' ''L'' n)"
    and n5: "\<not> str_in ''RIGHT'' (py_replace ''R'' ''L'' n)"
  shows "get_side n = ''R'' \<and> get_mirror_name ''R'' n \<noteq> []
       \<and> get_side (get_mirror_name ''R'' n) = ''L''
       \<and> get_mirror_name ''L'' (get_mirror_name ''R'' n) = n"
proof -
  let ?m = "py_replace ''R'' ''L'' n"
  from k have kn: "str_in ''R'' n" by (rule suffix_str_in)
  have v: "suffix ''L'' ?m" by (rule suffix_replaced [OF _ _ k]) simp_all
  have b: "py_replace ''L'' ''R'' ?m = n" by (rule replace_back [OF _ _ _ nv]) simp_all
  have ne: "?m \<noteq> []" using kn by (intro py_replace_nonempty) auto
  have g1: "get_side n = ''R''"
    by (simp add: get_side_def get_mirror_name_def mirror_with_def mirror_sides_dict_L_def mirror_sides_dict_R_def
          mirror_sides_end_L_def mirror_sides_end_R_def endswith_def k e0 e1 o0 o1 o2 o3 o4 o5)
  have g2: "get_mirror_name ''R'' n = ?m"
    by (simp add: get_side_def get_mirror_name_def mirror_with_def mirror_sides_dict_L_def mirror_sides_dict_R_def
          mirror_sides_end_L_def mirror_sides_end_R_def endswith_def k e0 e1 o0 o1 o2 o3 o4 o5)
  have g3: "get_side ?m = ''L''"
    by (simp add: get_side_def get_mirror_name_def mirror_with_def mirror_sides_dict_L_def mirror_sides_dict_R_def
          mirror_sides_end_L_def mirror_sides_end_R_def endswith_def v n0 n1 n2 n3 n4 n5)
  have g4: "get_mirror_name ''L'' ?m = n"
    by (simp add: get_side_def get_mirror_name_def mirror_with_def mirror_sides_dict_L_def mirror_sides_dict_R_def
          mirror_sides_end_L_def mirror_sides_end_R_def endswith_def v n0 n1 n2 n3 n4 n5 b)
  show ?thesis by (simp add: g1 g2 g3 g4 ne)
qed

lemma mirror_end_r:
  assumes k: "suffix ''_r'' n" and nv: "\<not> str_in ''_l'' n"
    and e0: "\<not> suffix ''L'' n"
    and e1: "\<not> suffix ''_l'' n"
    and e2: "\<not> suffix ''R'' n"
    and o0: "\<not> str_in ''left'' n"
    and o1: "\<not> str_in ''Left'' n"
    and o2: "\<not> str_in ''LEFT'' n"
    and o3: "\<not> str_in ''right'' n"
    and o4: "\<not> str_in ''Right'' n"
    and o5: "\<not> str_in ''RIGHT'' n"
    and n0: "\<not> str_in ''left'' (py_replace ''_r'' ''_l'' n)"
    and n1: "\<not> str_in ''Left'' (py_replace ''_r'' ''_l'' n)"
    and n2: "\<not> str_in ''LEFT'' (py_replace ''_r'' ''_l'' n)"
    and n3: "\<not> str_in ''right'' (py_replace ''_r'' ''_l'' n)"
    and n4: "\<not> str_in ''Right'' (py_replace ''_r'' ''_l'' n)"
    and n5: "\<not> str_in ''RIGHT'' (py_replace ''_r'' ''_l'' n)"
  shows "get_side n = ''R'' \<and> get_mirror_name ''R'' n \<noteq> []
       \<and> get_side (get_mirror_name ''R'' n) = ''L''
       \<and> get_mirror_name ''L'' (get_mirror_name ''R'' n) = n"
proof -
  let ?m = "py_replace ''_r'' ''_l'' n"
  from k have kn: "str_in ''_r'' n" by (rule suffix_str_in)
  have v: "suffix ''_l'' ?m" by (rule suffix_replaced [OF _ _ k]) simp_all
  have b: "py_replace ''_l'' ''_r'' ?m = n" by (rule replace_back [OF _ _ _ nv]) simp_all
  have ne: "?m \<noteq> []" using kn by (intro py_replace_nonempty) auto
  have s0: "\<not> suffix ''L'' ?m"
    using suffix_last_eq [OF v, of "''L''"] by auto
  have g1: "get_side n = ''R''"
    by (simp add: get_side_def get_mirror_name_def mirror_with_def mirror_sides_dict_L_def mirror_sides_dict_R_def
          mirror_sides_end_L_def mirror_sides_end_R_def endswith_def k e0 e1 e2 o0 o1 o2 o3 o4 o5)
  have g2: "get_mirror_name ''R'' n = ?m"
    by (simp add: get_side_def get_mirror_name_def mirror_with_def mirror_sides_dict_L_def mirror_sides_dict_R_def
          mirror_sides_end_L_def mirror_sides_end_R_def endswith_def k e0 e1 e2 o0 o1 o2 o3 o4 o5)
  have g3: "get_side ?m = ''L''"
    by (simp add: get_side_def get_mirror_name_def mirror_with_def mirror_sides_dict_L_def mirror_sides_dict_R_def
          mirror_sides_end_L_def mirror_sides_end_R_def endswith_def v s0 n0 n1 n2 n3 n4 n5)
  have g4: "get_mirror_name ''L'' ?m = n"
    by (simp add: get_side_def get_mirror_name_def mirror_with_def mirror_sides_dict_L_def mirror_sides_dict_R_def
          mirror_sides_end_L_def mirror_sides_end_R_def endswith_def v s0 n0 n1 n2 n3 n4 n5 b)
  show ?thesis by (simp add: g1 g2 g3 g4 ne)
qed

subsection \<open>The mirror name is not empty\<close>

lemma mirror_with_nonempty:
  assumes ne: "\<forall>kv \<in> set (dict @ ends). fst kv \<noteq> [] \<and> snd kv \<noteq> []"
    and side: "list_ex (\<lambda>x. str_in x n) (map fst dict) \<or> list_ex (\<lambda>x. endswith n x) (map fst ends)"
  shows "\<exists>m. mirror_with dict ends n = Some m \<and> m \<noteq> []"
proof (cases "find (\<lambda>kv. str_in (fst kv) n) dict")
  case (Some kv)
  then have kv: "kv \<in> set dict" "str_in (fst kv) n" by (auto simp: find_Some_iff)
  with ne have k: "fst kv \<noteq> []" "snd kv \<noteq> []" by auto
  with kv(2) have "n \<noteq> []" by auto
  from py_replace_nonempty [OF k this] Some show ?thesis by (simp add: mirror_with_def)
next
  case None
  then have "\<not> list_ex (\<lambda>x. str_in x n) (map fst dict)"
    by (auto simp: find_None_iff list_ex_iff)
  with side have "list_ex (\<lambda>x. endswith n x) (map fst ends)" by simp
  then obtain kv where "find (\<lambda>kv. endswith n (fst kv)) ends = Some kv"
    by (cases "find (\<lambda>kv. endswith n (fst kv)) ends") (auto simp: find_None_iff list_ex_iff)
  note f = this
  then have kv: "kv \<in> set ends" "suffix (fst kv) n" by (auto simp: find_Some_iff endswith_def)
  with ne have k: "fst kv \<noteq> []" "snd kv \<noteq> []" by auto
  with kv(2) have "n \<noteq> []" by auto
  from py_replace_nonempty [OF k this] None f show ?thesis by (simp add: mirror_with_def)
qed

lemma get_mirror_name_nonempty:
  assumes "get_side n = ''L'' \<or> get_side n = ''R''"
  shows "get_mirror_name (get_side n) n \<noteq> []"
proof -
  have l: "\<forall>kv \<in> set (mirror_sides_dict_L @ mirror_sides_end_L). fst kv \<noteq> [] \<and> snd kv \<noteq> []"
    by (simp add: mirror_sides_dict_L_def mirror_sides_end_L_def)
  have r: "\<forall>kv \<in> set (mirror_sides_dict_R @ mirror_sides_end_R). fst kv \<noteq> [] \<and> snd kv \<noteq> []"
    by (simp add: mirror_sides_dict_R_def mirror_sides_end_R_def)
  from assms show ?thesis
  proof
    assume s: "get_side n = ''L''"
    then have "list_ex (\<lambda>x. str_in x n) (map fst mirror_sides_dict_L)
               \<or> list_ex (\<lambda>x. endswith n x) (map fst mirror_sides_end_L)"
      unfolding get_side_def by (auto split: if_splits)
    from mirror_with_nonempty [OF l this] s show ?thesis
      by (auto simp: get_mirror_name_def)
  next
    assume s: "get_side n = ''R''"
    then have "list_ex (\<lambda>x. str_in x n) (map fst mirror_sides_dict_R)
               \<or> list_ex (\<lambda>x. endswith n x) (map fst mirror_sides_end_R)"
      unfolding get_side_def by (auto split: if_splits)
    from mirror_with_nonempty [OF r this] s show ?thesis
      by (auto simp: get_mirror_name_def)
  qed
qed

subsection \<open>Mirroring twice\<close>

lemma mirrors_back_L:
  assumes "get_side n = ''L'' \<and> get_mirror_name ''L'' n \<noteq> []
       \<and> get_side (get_mirror_name ''L'' n) = ''R''
       \<and> get_mirror_name ''R'' (get_mirror_name ''L'' n) = n"
  shows "(get_side n = ''L'' \<or> get_side n = ''R'')
       \<and> get_side (get_mirror_name (get_side n) n) = opposite_side (get_side n)
       \<and> get_mirror_name (opposite_side (get_side n)) (get_mirror_name (get_side n) n) = n"
  using assms by (simp add: opposite_side_def)

lemma mirrors_back_R:
  assumes "get_side n = ''R'' \<and> get_mirror_name ''R'' n \<noteq> []
       \<and> get_side (get_mirror_name ''R'' n) = ''L''
       \<and> get_mirror_name ''L'' (get_mirror_name ''R'' n) = n"
  shows "(get_side n = ''L'' \<or> get_side n = ''R'')
       \<and> get_side (get_mirror_name (get_side n) n) = opposite_side (get_side n)
       \<and> get_mirror_name (opposite_side (get_side n)) (get_mirror_name (get_side n) n) = n"
  using assms by (simp add: opposite_side_def)

lemma single_word_name_mirrors_back:
  assumes "single_word_name n"
  shows "(get_side n = ''L'' \<or> get_side n = ''R'')
       \<and> get_side (get_mirror_name (get_side n) n) = opposite_side (get_side n)
       \<and> get_mirror_name (opposite_side (get_side n)) (get_mirror_name (get_side n) n) = n"
proof -
  from assms have e: "\<not> suffix ''L'' n" "\<not> suffix ''_l'' n"
    by (simp_all add: single_word_name_def end_markers_def endswith_def)
  from assms have one: "length (filter (\<lambda>w. str_in w n) side_words) = 1"
    by (simp add: single_word_name_def)
  from one consider (left_lower) "str_in ''left'' n" "\<not> str_in ''Left'' n" "\<not> str_in ''LEFT'' n" "\<not> str_in ''right'' n" "\<not> str_in ''Right'' n" "\<not> str_in ''RIGHT'' n"
    | (left_capital) "\<not> str_in ''left'' n" "str_in ''Left'' n" "\<not> str_in ''LEFT'' n" "\<not> str_in ''right'' n" "\<not> str_in ''Right'' n" "\<not> str_in ''RIGHT'' n"
    | (left_upper) "\<not> str_in ''left'' n" "\<not> str_in ''Left'' n" "str_in ''LEFT'' n" "\<not> str_in ''right'' n" "\<not> str_in ''Right'' n" "\<not> str_in ''RIGHT'' n"
    | (right_lower) "\<not> str_in ''left'' n" "\<not> str_in ''Left'' n" "\<not> str_in ''LEFT'' n" "str_in ''right'' n" "\<not> str_in ''Right'' n" "\<not> str_in ''RIGHT'' n"
    | (right_capital) "\<not> str_in ''left'' n" "\<not> str_in ''Left'' n" "\<not> str_in ''LEFT'' n" "\<not> str_in ''right'' n" "str_in ''Right'' n" "\<not> str_in ''RIGHT'' n"
    | (right_upper) "\<not> str_in ''left'' n" "\<not> str_in ''Left'' n" "\<not> str_in ''LEFT'' n" "\<not> str_in ''right'' n" "\<not> str_in ''Right'' n" "str_in ''RIGHT'' n"
    by (auto simp: side_words_def split: if_splits)
  then show ?thesis
  proof cases
    case left_lower
    show ?thesis by (rule mirrors_back_L) (rule mirror_left_lower [OF left_lower(1) left_lower(2) left_lower(3) left_lower(4) left_lower(5) left_lower(6) e(1) e(2)])
  next
    case left_capital
    show ?thesis by (rule mirrors_back_L) (rule mirror_left_capital [OF left_capital(2) left_capital(1) left_capital(3) left_capital(4) left_capital(5) left_capital(6) e(1) e(2)])
  next
    case left_upper
    show ?thesis by (rule mirrors_back_L) (rule mirror_left_upper [OF left_upper(3) left_upper(1) left_upper(2) left_upper(4) left_upper(5) left_upper(6) e(1) e(2)])
  next
    case right_lower
    show ?thesis by (rule mirrors_back_R) (rule mirror_right_lower [OF right_lower(4) right_lower(1) right_lower(2) right_lower(3) right_lower(5) right_lower(6) e(1) e(2)])
  next
    case right_capital
    show ?thesis by (rule mirrors_back_R) (rule mirror_right_capital [OF right_capital(5) right_capital(1) right_capital(2) right_capital(3) right_capital(4) right_capital(6) e(1) e(2)])
  next
    case right_upper
    show ?thesis by (rule mirrors_back_R) (rule mirror_right_upper [OF right_upper(6) right_upper(1) right_upper(2) right_upper(3) right_upper(4) right_upper(5) e(1) e(2)])
  qed
qed

lemma marker_name_mirrors_back:
  assumes "marker_name n"
  shows "(get_side n = ''L'' \<or> get_side n = ''R'')
       \<and> get_side (get_mirror_name (get_side n) n) = opposite_side (get_side n)
       \<and> get_mirror_name (opposite_side (get_side n)) (get_mirror_name (get_side n) n) = n"
proof -
  from assms have o: "\<not> str_in ''left'' n" "\<not> str_in ''Left'' n" "\<not> str_in ''LEFT'' n" "\<not> str_in ''right'' n" "\<not> str_in ''Right'' n" "\<not> str_in ''RIGHT'' n"
    by (simp_all add: marker_name_def side_words_def)
  from assms obtain kv where kv: "end_marker_of n = Some kv" "\<not> str_in (snd kv) n"
    "\<not> list_ex (\<lambda>w. str_in w (py_replace (fst kv) (snd kv) n)) side_words"
    by (cases "end_marker_of n") (auto simp: marker_name_def)
  from kv(1) consider (end_L) "kv = (''L'', ''R'')" "suffix ''L'' n"
    | (end_l) "kv = (''_l'', ''_r'')" "suffix ''_l'' n" "\<not> suffix ''L'' n"
    | (end_R) "kv = (''R'', ''L'')" "suffix ''R'' n" "\<not> suffix ''L'' n" "\<not> suffix ''_l'' n"
    | (end_r) "kv = (''_r'', ''_l'')" "suffix ''_r'' n" "\<not> suffix ''L'' n" "\<not> suffix ''_l'' n" "\<not> suffix ''R'' n"
    by (auto simp: end_marker_of_def mirror_sides_end_L_def mirror_sides_end_R_def endswith_def
          split: if_splits)
  then show ?thesis
  proof cases
    case end_L
    from kv(2) end_L(1) have nv: "\<not> str_in ''R'' n" by simp
    from kv(3) end_L(1) have m: "\<not> str_in ''left'' (py_replace ''L'' ''R'' n)" "\<not> str_in ''Left'' (py_replace ''L'' ''R'' n)" "\<not> str_in ''LEFT'' (py_replace ''L'' ''R'' n)" "\<not> str_in ''right'' (py_replace ''L'' ''R'' n)" "\<not> str_in ''Right'' (py_replace ''L'' ''R'' n)" "\<not> str_in ''RIGHT'' (py_replace ''L'' ''R'' n)"
      by (simp_all add: side_words_def)
    show ?thesis
      by (rule mirrors_back_L) (rule mirror_end_L [OF end_L(2) nv  o m])
  next
    case end_l
    from kv(2) end_l(1) have nv: "\<not> str_in ''_r'' n" by simp
    from kv(3) end_l(1) have m: "\<not> str_in ''left'' (py_replace ''_l'' ''_r'' n)" "\<not> str_in ''Left'' (py_replace ''_l'' ''_r'' n)" "\<not> str_in ''LEFT'' (py_replace ''_l'' ''_r'' n)" "\<not> str_in ''right'' (py_replace ''_l'' ''_r'' n)" "\<not> str_in ''Right'' (py_replace ''_l'' ''_r'' n)" "\<not> str_in ''RIGHT'' (py_replace ''_l'' ''_r'' n)"
      by (simp_all add: side_words_def)
    show ?thesis
      by (rule mirrors_back_L) (rule mirror_end_l [OF end_l(2) nv end_l(3) o m])
  next
    case end_R
    from kv(2) end_R(1) have nv: "\<not> str_in ''L'' n" by simp
    from kv(3) end_R(1) have m: "\<not> str_in ''left'' (py_replace ''R'' ''L'' n)" "\<not> str_in ''Left'' (py_replace ''R'' ''L'' n)" "\<not> str_in ''LEFT'' (py_replace ''R'' ''L'' n)" "\<not> str_in ''right'' (py_replace ''R'' ''L'' n)" "\<not> str_in ''Right'' (py_replace ''R'' ''L'' n)" "\<not> str_in ''RIGHT'' (py_replace ''R'' ''L'' n)"
      by (simp_all add: side_words_def)
    show ?thesis
      by (rule mirrors_back_R) (rule mirror_end_R [OF end_R(2) nv end_R(3) end_R(4) o m])
  next
    case end_r
    from kv(2) end_r(1) have nv: "\<not> str_in ''_l'' n" by simp
    from kv(3) end_r(1) have m: "\<not> str_in ''left'' (py_replace ''_r'' ''_l'' n)" "\<not> str_in ''Left'' (py_replace ''_r'' ''_l'' n)" "\<not> str_in ''LEFT'' (py_replace ''_r'' ''_l'' n)" "\<not> str_in ''right'' (py_replace ''_r'' ''_l'' n)" "\<not> str_in ''Right'' (py_replace ''_r'' ''_l'' n)" "\<not> str_in ''RIGHT'' (py_replace ''_r'' ''_l'' n)"
      by (simp_all add: side_words_def)
    show ?thesis
      by (rule mirrors_back_R) (rule mirror_end_r [OF end_r(2) nv end_r(3) end_r(4) end_r(5) o m])
  qed
qed

text \<open>
  Two names on which mirroring twice is not the identity. \<open>eyeLeft_l\<close> has the side
  \<open>L\<close> and the mirror name \<open>eyeRight_l\<close>, which ends with \<open>_l\<close> and so has the
  side \<open>L\<close> again. \<open>LowerLipR\<close> has the side \<open>R\<close> and the mirror name
  \<open>LowerLipL\<close> of side \<open>L\<close>; mirroring that replaces every \<open>L\<close> and gives
  \<open>RowerRipR\<close>.
\<close>

theorem get_mirror_name_not_mirrored_back:
  "get_side ''eyeLeft_l'' = ''L''
   \<and> get_mirror_name ''L'' ''eyeLeft_l'' = ''eyeRight_l''
   \<and> get_side ''eyeRight_l'' = ''L''
   \<and> get_side ''LowerLipR'' = ''R''
   \<and> get_mirror_name ''R'' ''LowerLipR'' = ''LowerLipL''
   \<and> get_side ''LowerLipL'' = ''L''
   \<and> get_mirror_name ''L'' ''LowerLipL'' = ''RowerRipR''"
  by (simp add: get_side_def get_mirror_name_def mirror_with_def mirror_sides_dict_L_def
        mirror_sides_dict_R_def mirror_sides_end_L_def mirror_sides_end_R_def endswith_def
        suffix_to_prefix)

text \<open>
  Claim C6. For every expression name \<open>n\<close> with a side \<open>L\<close> or \<open>R\<close>, the mirror name
  \<open>get_mirror_name(get_side(n), n)\<close> is not empty. If \<open>n\<close> contains exactly one of the
  six side words and ends with none of the end markers, or if \<open>n\<close> contains no side word,
  ends with an end marker, does not contain the replacement of that marker and the replacement
  creates no side word, then the mirror name has the opposite side, and its mirror name for
  that side is \<open>n\<close> again.
\<close>

theorem get_mirror_name_mirrors_back:
  "(get_side n = ''L'' \<or> get_side n = ''R'' \<longrightarrow> get_mirror_name (get_side n) n \<noteq> [])
   \<and> (single_word_name n \<or> marker_name n \<longrightarrow>
         (get_side n = ''L'' \<or> get_side n = ''R'')
       \<and> get_side (get_mirror_name (get_side n) n) = opposite_side (get_side n)
       \<and> get_mirror_name (opposite_side (get_side n)) (get_mirror_name (get_side n) n) = n)"
proof (intro conjI impI)
  assume "get_side n = ''L'' \<or> get_side n = ''R''"
  then show "get_mirror_name (get_side n) n \<noteq> []" by (rule get_mirror_name_nonempty)
next
  assume a: "single_word_name n \<or> marker_name n"
  have "(get_side n = ''L'' \<or> get_side n = ''R'')
       \<and> get_side (get_mirror_name (get_side n) n) = opposite_side (get_side n)
       \<and> get_mirror_name (opposite_side (get_side n)) (get_mirror_name (get_side n) n) = n"
    using a single_word_name_mirrors_back marker_name_mirrors_back by blast
  then show "get_side n = ''L'' \<or> get_side n = ''R''"
    and "get_side (get_mirror_name (get_side n) n) = opposite_side (get_side n)"
    and "get_mirror_name (opposite_side (get_side n)) (get_mirror_name (get_side n) n) = n"
    by simp_all
qed

theorem get_mirror_name_mirrors_back_witness:
  "single_word_name ''eyeBlinkLeft''
   \<and> get_side ''eyeBlinkLeft'' = ''L''
   \<and> get_mirror_name ''L'' ''eyeBlinkLeft'' = ''eyeBlinkRight''
   \<and> get_side ''eyeBlinkRight'' = ''R''
   \<and> get_mirror_name ''R'' ''eyeBlinkRight'' = ''eyeBlinkLeft''
   \<and> marker_name ''jaw_r''
   \<and> get_side ''jaw_r'' = ''R''
   \<and> get_mirror_name ''R'' ''jaw_r'' = ''jaw_l''
   \<and> get_side ''jaw_l'' = ''L''
   \<and> get_mirror_name ''L'' ''jaw_l'' = ''jaw_r''"
proof -
  have w: "single_word_name ''eyeBlinkLeft''"
    by (simp add: single_word_name_def side_words_def end_markers_def endswith_def
          suffix_to_prefix)
  have m: "marker_name ''jaw_r''"
    by (simp add: marker_name_def side_words_def end_marker_of_def mirror_sides_end_L_def
          mirror_sides_end_R_def endswith_def suffix_to_prefix)
  have g: "get_side ''eyeBlinkLeft'' = ''L''"
    "get_mirror_name ''L'' ''eyeBlinkLeft'' = ''eyeBlinkRight''"
    "get_side ''jaw_r'' = ''R''"
    "get_mirror_name ''R'' ''jaw_r'' = ''jaw_l''"
    by (simp_all add: get_side_def get_mirror_name_def mirror_with_def mirror_sides_dict_L_def
          mirror_sides_dict_R_def mirror_sides_end_L_def mirror_sides_end_R_def endswith_def
        suffix_to_prefix)
  from get_mirror_name_mirrors_back [of "''eyeBlinkLeft''"] w
  have a: "get_side ''eyeBlinkRight'' = ''R''"
    "get_mirror_name ''R'' ''eyeBlinkRight'' = ''eyeBlinkLeft''"
    by (simp_all add: g opposite_side_def)
  from get_mirror_name_mirrors_back [of "''jaw_r''"] m
  have b: "get_side ''jaw_l'' = ''L''"
    "get_mirror_name ''L'' ''jaw_l'' = ''jaw_r''"
    by (simp_all add: g opposite_side_def)
  show ?thesis by (intro conjI; fact)
qed


end
